theory Spec2Isabelle
  imports Complex_Main "HOL-Library.Word"
begin

unbundle bit_operations_syntax

section \<open>Numbers\<close>

text \<open>
  JavaScript numbers are modelled as mathematical reals: \<open>Math.floor\<close> is the floor
  function, \<open>Math.sin\<close>, \<open>Math.cos\<close> and \<open>Math.sqrt\<close> are the real functions. Rounding,
  overflow to \<open>Infinity\<close> and \<open>NaN\<close> are outside this model. The bitwise operators of
  JavaScript first convert their operand to a signed 32-bit integer (\<open>ToInt32\<close>).
\<close>

definition to_int32 :: "int \<Rightarrow> int" where
  "to_int32 k = signed_take_bit 31 k"

section \<open>NoiseGenerator\<close>

record NoiseGenerator =
  seed :: real
  gradients :: "(real \<times> real) list"
  permutation :: "nat list"

definition generateGradients :: "(real \<times> real) list" where
  "generateGradients =
     map (\<lambda>i. let angle = (real i / 256) * 2 * pi in (cos angle, sin angle)) [0..<256]"

text \<open>
  \<open>seededRandom(seed)\<close> returns a closure over the counter \<open>state\<close>. One call of the
  closure reads the counter, increments it and returns the fractional part of
  \<open>sin(state) * 10000\<close>; the model returns the value and the new counter.
\<close>

definition seededRandom_call :: "real \<Rightarrow> real \<times> real" where
  "seededRandom_call state =
     (let x = sin state * 10000 in (x - of_int \<lfloor>x\<rfloor>, state + 1))"

text \<open>
  The shuffle loop \<open>for (i = 255; i > 0; i--)\<close>: \<open>shuffle i state perm\<close> runs the
  iterations \<open>i, i - 1, ..., 1\<close>. The destructuring swap reads both elements before it
  writes either.
\<close>

fun shuffle :: "nat \<Rightarrow> real \<Rightarrow> nat list \<Rightarrow> nat list" where
  "shuffle 0 state perm = perm"
| "shuffle (Suc i) state perm =
     (let (r, state') = seededRandom_call state;
          j = nat \<lfloor>r * (real (Suc i) + 1)\<rfloor>
      in shuffle i state' (perm[Suc i := perm ! j, j := perm ! Suc i]))"

definition generatePermutation :: "real \<Rightarrow> nat list" where
  "generatePermutation s = (let perm = shuffle 255 s [0..<256] in perm @ perm)"

definition NoiseGenerator_new :: "real \<Rightarrow> NoiseGenerator" where
  "NoiseGenerator_new s =
     \<lparr>seed = s, gradients = generateGradients, permutation = generatePermutation s\<rparr>"

definition fade :: "real \<Rightarrow> real" where
  "fade t = t * t * t * (t * (t * 6 - 15) + 10)"

definition lerp :: "real \<Rightarrow> real \<Rightarrow> real \<Rightarrow> real" where
  "lerp a b t = a + t * (b - a)"

definition grad :: "nat \<Rightarrow> real \<Rightarrow> real \<Rightarrow> real" where
  "grad hash x y =
     (let h = hash AND 3;
          u = (if h < 2 then x else y);
          v = (if h < 2 then y else x)
      in (if h AND 1 = 0 then u else - u) + (if h AND 2 = 0 then v else - v))"

definition perlin2D :: "NoiseGenerator \<Rightarrow> real \<Rightarrow> real \<Rightarrow> real" where
  "perlin2D ng x y =
     (let p = permutation ng;
          X = nat (to_int32 \<lfloor>x\<rfloor> AND 255);
          Y = nat (to_int32 \<lfloor>y\<rfloor> AND 255);
          xf = x - of_int \<lfloor>x\<rfloor>;
          yf = y - of_int \<lfloor>y\<rfloor>;
          u = fade xf;
          v = fade yf;
          A = p ! X + Y;
          AA = p ! A;
          AB = p ! (A + 1);
          B = p ! (X + 1) + Y;
          BA = p ! B;
          BB = p ! (B + 1)
      in lerp
           (lerp (grad (p ! AA) xf yf) (grad (p ! BA) (xf - 1) yf) u)
           (lerp (grad (p ! AB) xf (yf - 1)) (grad (p ! BB) (xf - 1) (yf - 1)) u)
           v)"

text \<open>
  The three fractal combinators share one loop shape: \<open>octaves\<close> iterations over the
  accumulators \<open>value\<close>, \<open>amplitude\<close>, \<open>frequency\<close> and \<open>maxValue\<close>. The loops return
  \<open>(value, maxValue)\<close>; the method divides the two.
\<close>

fun octaveNoise2D_loop ::
  "NoiseGenerator \<Rightarrow> real \<Rightarrow> real \<Rightarrow> real \<Rightarrow> nat \<Rightarrow> real \<Rightarrow> real \<Rightarrow> real \<Rightarrow> real \<Rightarrow> real \<times> real"
where
  "octaveNoise2D_loop ng x y persistence 0 val amplitude frequency maxValue = (val, maxValue)"
| "octaveNoise2D_loop ng x y persistence (Suc n) val amplitude frequency maxValue =
     octaveNoise2D_loop ng x y persistence n
       (val + perlin2D ng (x * frequency) (y * frequency) * amplitude)
       (amplitude * persistence) (frequency * 2) (maxValue + amplitude)"

definition octaveNoise2D ::
  "NoiseGenerator \<Rightarrow> real \<Rightarrow> real \<Rightarrow> nat \<Rightarrow> real \<Rightarrow> real \<Rightarrow> real"
where
  "octaveNoise2D ng x y octaves persistence scale =
     (let (val, maxValue) = octaveNoise2D_loop ng x y persistence octaves 0 1 scale 0
      in val / maxValue)"

fun ridgedNoise2D_loop ::
  "NoiseGenerator \<Rightarrow> real \<Rightarrow> real \<Rightarrow> real \<Rightarrow> nat \<Rightarrow> real \<Rightarrow> real \<Rightarrow> real \<Rightarrow> real \<Rightarrow> real \<times> real"
where
  "ridgedNoise2D_loop ng x y persistence 0 val amplitude frequency maxValue = (val, maxValue)"
| "ridgedNoise2D_loop ng x y persistence (Suc n) val amplitude frequency maxValue =
     (let n0 = perlin2D ng (x * frequency) (y * frequency);
          n1 = 1 - \<bar>n0\<bar>;
          n2 = n1 * n1
      in ridgedNoise2D_loop ng x y persistence n
           (val + n2 * amplitude) (amplitude * persistence) (frequency * 2)
           (maxValue + amplitude))"

definition ridgedNoise2D ::
  "NoiseGenerator \<Rightarrow> real \<Rightarrow> real \<Rightarrow> nat \<Rightarrow> real \<Rightarrow> real \<Rightarrow> real"
where
  "ridgedNoise2D ng x y octaves persistence scale =
     (let (val, maxValue) = ridgedNoise2D_loop ng x y persistence octaves 0 1 scale 0
      in val / maxValue)"

fun billow2D_loop ::
  "NoiseGenerator \<Rightarrow> real \<Rightarrow> real \<Rightarrow> real \<Rightarrow> nat \<Rightarrow> real \<Rightarrow> real \<Rightarrow> real \<Rightarrow> real \<Rightarrow> real \<times> real"
where
  "billow2D_loop ng x y persistence 0 val amplitude frequency maxValue = (val, maxValue)"
| "billow2D_loop ng x y persistence (Suc n) val amplitude frequency maxValue =
     (let n0 = perlin2D ng (x * frequency) (y * frequency);
          n1 = \<bar>n0\<bar>
      in billow2D_loop ng x y persistence n
           (val + n1 * amplitude) (amplitude * persistence) (frequency * 2)
           (maxValue + amplitude))"

definition billow2D ::
  "NoiseGenerator \<Rightarrow> real \<Rightarrow> real \<Rightarrow> nat \<Rightarrow> real \<Rightarrow> real \<Rightarrow> real"
where
  "billow2D ng x y octaves persistence scale =
     (let (val, maxValue) = billow2D_loop ng x y persistence octaves 0 1 scale 0
      in val / maxValue)"

section \<open>BiomeNoise\<close>

datatype biome = Plains | Forest | Desert | Mountain | City

record BiomeNoise =
  temperature :: NoiseGenerator
  humidity :: NoiseGenerator
  elevation :: NoiseGenerator
  density :: NoiseGenerator

definition BiomeNoise_new :: "real \<Rightarrow> BiomeNoise" where
  "BiomeNoise_new s =
     \<lparr>temperature = NoiseGenerator_new s,
      humidity = NoiseGenerator_new (s + 1000),
      elevation = NoiseGenerator_new (s + 2000),
      density = NoiseGenerator_new (s + 3000)\<rparr>"

definition getTemperature :: "BiomeNoise \<Rightarrow> real \<Rightarrow> real \<Rightarrow> real" where
  "getTemperature bn x y = octaveNoise2D (temperature bn) (x * 0.001) (y * 0.001) 3 0.6 1"

definition getHumidity :: "BiomeNoise \<Rightarrow> real \<Rightarrow> real \<Rightarrow> real" where
  "getHumidity bn x y = octaveNoise2D (humidity bn) (x * 0.0008) (y * 0.0008) 3 0.5 1"

definition getElevation :: "BiomeNoise \<Rightarrow> real \<Rightarrow> real \<Rightarrow> real" where
  "getElevation bn x y =
     (let base = octaveNoise2D (elevation bn) (x * 0.0005) (y * 0.0005) 6 0.7 1;
          ridged = ridgedNoise2D (elevation bn) (x * 0.002) (y * 0.002) 4 0.4 1
      in base * 0.7 + ridged * 0.3)"

definition getDensity :: "BiomeNoise \<Rightarrow> real \<Rightarrow> real \<Rightarrow> real" where
  "getDensity bn x y = octaveNoise2D (density bn) (x * 0.003) (y * 0.003) 4 0.5 1"

definition getBiome :: "BiomeNoise \<Rightarrow> real \<Rightarrow> real \<Rightarrow> biome" where
  "getBiome bn x y =
     (let temp = getTemperature bn x y;
          hum = getHumidity bn x y;
          elev = getElevation bn x y
      in if elev > 0.6 then Mountain
         else if temp < - 0.3 then Mountain
         else if hum < - 0.3 \<and> temp > 0.2 then Desert
         else if hum > 0.4 \<and> temp > - 0.1 then Forest
         else if elev < 0.1 \<and> \<bar>temp\<bar> < 0.3 then City
         else Plains)"

definition getBlendedHeight :: "BiomeNoise \<Rightarrow> real \<Rightarrow> real \<Rightarrow> biome \<Rightarrow> real" where
  "getBlendedHeight bn x y b =
     (let elev = getElevation bn x y
      in case b of
           Mountain \<Rightarrow> elev * 200 + ridgedNoise2D (elevation bn) (x * 0.005) (y * 0.005) 3 0.5 1 * 100
         | Desert \<Rightarrow> elev * 50 + billow2D (elevation bn) (x * 0.008) (y * 0.008) 2 0.5 1 * 30
         | Forest \<Rightarrow> elev * 80 + octaveNoise2D (elevation bn) (x * 0.01) (y * 0.01) 2 0.5 1 * 20
         | City \<Rightarrow> max 0 (elev * 20)
         | Plains \<Rightarrow> elev * 60 + octaveNoise2D (elevation bn) (x * 0.003) (y * 0.003) 3 0.5 1 * 15)"



section \<open>Vec3 and MathUtils\<close>

datatype Vec3 = Vec3 (vx: real) (vy: real) (vz: real)

definition Vec3_zero :: Vec3 where
  "Vec3_zero = Vec3 0 0 0"

definition Vec3_up :: Vec3 where
  "Vec3_up = Vec3 0 1 0"

definition Vec3_forward :: Vec3 where
  "Vec3_forward = Vec3 0 0 1"

definition Vec3_add :: "Vec3 \<Rightarrow> Vec3 \<Rightarrow> Vec3" where
  "Vec3_add a b = Vec3 (vx a + vx b) (vy a + vy b) (vz a + vz b)"

definition Vec3_subtract :: "Vec3 \<Rightarrow> Vec3 \<Rightarrow> Vec3" where
  "Vec3_subtract a b = Vec3 (vx a - vx b) (vy a - vy b) (vz a - vz b)"

definition Vec3_multiply :: "Vec3 \<Rightarrow> real \<Rightarrow> Vec3" where
  "Vec3_multiply a k = Vec3 (vx a * k) (vy a * k) (vz a * k)"

definition Vec3_divide :: "Vec3 \<Rightarrow> real \<Rightarrow> Vec3" where
  "Vec3_divide a k = Vec3 (vx a / k) (vy a / k) (vz a / k)"

definition Vec3_dot :: "Vec3 \<Rightarrow> Vec3 \<Rightarrow> real" where
  "Vec3_dot a b = vx a * vx b + vy a * vy b + vz a * vz b"

definition Vec3_length :: "Vec3 \<Rightarrow> real" where
  "Vec3_length a = sqrt (vx a * vx a + vy a * vy a + vz a * vz a)"

text \<open>\<open>normalize\<close> guards its division: a vector of length zero gives \<open>Vec3.zero()\<close>.\<close>

definition Vec3_normalize :: "Vec3 \<Rightarrow> Vec3" where
  "Vec3_normalize a =
     (let len = Vec3_length a in if len > 0 then Vec3_divide a len else Vec3_zero)"

definition Vec3_distance :: "Vec3 \<Rightarrow> Vec3 \<Rightarrow> real" where
  "Vec3_distance a b = Vec3_length (Vec3_subtract a b)"

definition MathUtils_lerp :: "real \<Rightarrow> real \<Rightarrow> real \<Rightarrow> real" where
  "MathUtils_lerp a b t = a + (b - a) * t"

section \<open>CatmullRomSpline\<close>

text \<open>
  Reading an array outside its bounds gives \<open>undefined\<close>, and reading a coordinate of
  \<open>undefined\<close> throws a \<open>TypeError\<close>. Methods that can throw return \<open>error + 'a\<close>.
\<close>

datatype error = TypeError

definition at_index :: "'a list \<Rightarrow> int \<Rightarrow> 'a option" where
  "at_index xs i = (if 0 \<le> i \<and> i < int (length xs) then Some (xs ! nat i) else None)"

record CatmullRomSpline =
  points :: "Vec3 list"

text \<open>
  The source writes the cubic and its derivative once per coordinate; \<open>catmull\<close> and
  \<open>catmull_derivative\<close> are that expression for one coordinate of the four control points.
\<close>

definition catmull :: "real \<Rightarrow> real \<Rightarrow> real \<Rightarrow> real \<Rightarrow> real \<Rightarrow> real" where
  "catmull a b c d t =
     (let t2 = t * t; t3 = t2 * t
      in 0.5 * ((2 * b) + (- a + c) * t + (2 * a - 5 * b + 4 * c - d) * t2
                + (- a + 3 * b - 3 * c + d) * t3))"

definition catmull_derivative :: "real \<Rightarrow> real \<Rightarrow> real \<Rightarrow> real \<Rightarrow> real \<Rightarrow> real" where
  "catmull_derivative a b c d t =
     (let t2 = t * t
      in 0.5 * ((- a + c) + 2 * (2 * a - 5 * b + 4 * c - d) * t
                + 3 * (- a + 3 * b - 3 * c + d) * t2))"

definition control_points ::
  "CatmullRomSpline \<Rightarrow> int \<Rightarrow> error + (Vec3 \<times> Vec3 \<times> Vec3 \<times> Vec3)"
where
  "control_points sp segment =
     (let ps = points sp
      in case (at_index ps (max 0 (segment - 1)), at_index ps segment, at_index ps (segment + 1),
               at_index ps (min (int (length ps) - 1) (segment + 2))) of
           (Some p0, Some p1, Some p2, Some p3) \<Rightarrow> Inr (p0, p1, p2, p3)
         | _ \<Rightarrow> Inl TypeError)"

definition getSegmentPoint :: "CatmullRomSpline \<Rightarrow> int \<Rightarrow> real \<Rightarrow> error + Vec3" where
  "getSegmentPoint sp segment t =
     (case control_points sp segment of
        Inl e \<Rightarrow> Inl e
      | Inr (p0, p1, p2, p3) \<Rightarrow>
          Inr (Vec3 (catmull (vx p0) (vx p1) (vx p2) (vx p3) t)
                    (catmull (vy p0) (vy p1) (vy p2) (vy p3) t)
                    (catmull (vz p0) (vz p1) (vz p2) (vz p3) t)))"

text \<open>\<open>getPoint\<close> and \<open>getTangent\<close> start with the same three lines, which map \<open>t\<close> to
  the segment index and the local parameter.\<close>

definition locate :: "CatmullRomSpline \<Rightarrow> real \<Rightarrow> int \<times> real" where
  "locate sp t =
     (let segmentCount = int (length (points sp)) - 1;
          segment = min \<lfloor>t * of_int segmentCount\<rfloor> (segmentCount - 1);
          localT = (t * of_int segmentCount) - of_int segment
      in (segment, localT))"

definition getPoint :: "CatmullRomSpline \<Rightarrow> real \<Rightarrow> error + Vec3" where
  "getPoint sp t =
     (if length (points sp) < 2
      then Inr (case at_index (points sp) 0 of Some p \<Rightarrow> p | None \<Rightarrow> Vec3_zero)
      else case locate sp t of (segment, localT) \<Rightarrow> getSegmentPoint sp segment localT)"

text \<open>\<open>getSegmentDerivative\<close> is the vector \<open>result\<close> of \<open>getSegmentTangent\<close> before its
  final \<open>normalize()\<close>.\<close>

definition getSegmentDerivative :: "CatmullRomSpline \<Rightarrow> int \<Rightarrow> real \<Rightarrow> error + Vec3" where
  "getSegmentDerivative sp segment t =
     (case control_points sp segment of
        Inl e \<Rightarrow> Inl e
      | Inr (p0, p1, p2, p3) \<Rightarrow>
          Inr (Vec3 (catmull_derivative (vx p0) (vx p1) (vx p2) (vx p3) t)
                    (catmull_derivative (vy p0) (vy p1) (vy p2) (vy p3) t)
                    (catmull_derivative (vz p0) (vz p1) (vz p2) (vz p3) t)))"

definition getSegmentTangent :: "CatmullRomSpline \<Rightarrow> int \<Rightarrow> real \<Rightarrow> error + Vec3" where
  "getSegmentTangent sp segment t =
     (case getSegmentDerivative sp segment t of
        Inl e \<Rightarrow> Inl e
      | Inr d \<Rightarrow> Inr (Vec3_normalize d))"

definition getTangent :: "CatmullRomSpline \<Rightarrow> real \<Rightarrow> error + Vec3" where
  "getTangent sp t =
     (if length (points sp) < 2 then Inr Vec3_forward
      else case locate sp t of (segment, localT) \<Rightarrow> getSegmentTangent sp segment localT)"

section \<open>RoadSystem\<close>

text \<open>
  The road reads its terrain only through \<open>terrain.getHeightAt(x, z)\<close>, so the terrain is
  the height function. The spline wraps the very array \<open>path\<close>; every write to \<open>path\<close> is
  followed by \<open>updateSpline\<close> before the spline is read again, so the spline holds the
  path's value. The road mesh (\<open>segments\<close>, their GPU buffers, the texture and \<open>stats\<close>)
  is written by \<open>generateSegments\<close> and read by none of the queries below; it is not part
  of this record.
\<close>

record RoadSystem =
  terrain :: "real \<Rightarrow> real \<Rightarrow> real"
  roadWidth :: real
  segmentLength :: real
  generationDistance :: real
  path :: "Vec3 list"
  spline :: "CatmullRomSpline option"
  lastGeneratedPosition :: Vec3
  currentDirection :: Vec3
  roadSeed :: real
  curviness :: real
  terrainFollowing :: real

definition rotateVector :: "Vec3 \<Rightarrow> real \<Rightarrow> Vec3" where
  "rotateVector v angle =
     (let c = cos angle; s = sin angle
      in Vec3 (vx v * c - vz v * s) (vy v) (vx v * s + vz v * c))"

definition updateSpline :: "RoadSystem \<Rightarrow> RoadSystem" where
  "updateSpline rs = rs\<lparr>spline := Some \<lparr>points = path rs\<rparr>\<rparr>"

text \<open>One pass through the body of the \<open>while\<close> loop of \<open>extendRoad\<close>, on the loop's
  variables \<open>(path, currentPos, currentDir)\<close>.\<close>

definition extendRoad_body ::
  "RoadSystem \<Rightarrow> NoiseGenerator \<Rightarrow> Vec3 list \<times> Vec3 \<times> Vec3 \<Rightarrow> Vec3 list \<times> Vec3 \<times> Vec3"
where
  "extendRoad_body rs noise st =
     (case st of (pth, currentPos, currentDir) \<Rightarrow>
        let segmentProgress = real (length pth) * 0.01;
            noiseValue = octaveNoise2D noise segmentProgress (segmentProgress * 0.7) 3 0.6 0.5;
            turnAngle = noiseValue * curviness rs * 0.5;
            currentDir' = rotateVector currentDir turnAngle;
            nextPos = Vec3_add currentPos (Vec3_multiply currentDir' (segmentLength rs));
            terrainHeight = terrain rs (vx nextPos) (vz nextPos);
            nextPos' = Vec3 (vx nextPos)
                            (MathUtils_lerp (vy nextPos) (terrainHeight + 1) (terrainFollowing rs))
                            (vz nextPos)
        in (pth @ [nextPos'], nextPos', currentDir'))"

text \<open>
  The loop \<open>while (generatedDistance < distance)\<close> does not end when \<open>segmentLength\<close> is
  not positive; \<open>None\<close> is the run that never returns.
\<close>

partial_function (option) extendRoad_loop ::
  "RoadSystem \<Rightarrow> NoiseGenerator \<Rightarrow> real \<Rightarrow> Vec3 list \<times> Vec3 \<times> Vec3 \<Rightarrow> real
     \<Rightarrow> (Vec3 list \<times> Vec3 \<times> Vec3) option"
where
  "extendRoad_loop rs noise distance st generatedDistance =
     (if generatedDistance < distance
      then extendRoad_loop rs noise distance (extendRoad_body rs noise st)
             (generatedDistance + segmentLength rs)
      else Some st)"

definition extendRoad :: "RoadSystem \<Rightarrow> real \<Rightarrow> RoadSystem option" where
  "extendRoad rs distance =
     (let noise = NoiseGenerator_new (roadSeed rs);
          currentPos = lastGeneratedPosition rs;
          currentDir = currentDirection rs
      in case extendRoad_loop rs noise distance (path rs, currentPos, currentDir) 0 of
           None \<Rightarrow> None
         | Some (pth, currentPos', currentDir') \<Rightarrow>
             Some (updateSpline
                     (rs\<lparr>path := pth, lastGeneratedPosition := currentPos',
                         currentDirection := currentDir'\<rparr>)))"

text \<open>The fields the constructor sets, then \<open>init()\<close>, which is \<open>generateInitialRoad()\<close>.\<close>

definition RoadSystem_fields :: "(real \<Rightarrow> real \<Rightarrow> real) \<Rightarrow> RoadSystem" where
  "RoadSystem_fields terr =
     \<lparr>terrain = terr, roadWidth = 8, segmentLength = 50, generationDistance = 1000,
      path = [], spline = None, lastGeneratedPosition = Vec3 0 0 0,
      currentDirection = Vec3 0 0 1, roadSeed = 54321, curviness = 0.3,
      terrainFollowing = 0.8\<rparr>"

definition generateInitialRoad :: "RoadSystem \<Rightarrow> RoadSystem option" where
  "generateInitialRoad rs =
     (let startPosition = Vec3 0 0 0
      in extendRoad (rs\<lparr>path := path rs @ [startPosition], lastGeneratedPosition := startPosition\<rparr>)
           (generationDistance rs))"

definition RoadSystem_new :: "(real \<Rightarrow> real \<Rightarrow> real) \<Rightarrow> RoadSystem option" where
  "RoadSystem_new terr = generateInitialRoad (RoadSystem_fields terr)"

text \<open>\<open>closestDistance\<close> starts at \<open>Infinity\<close>, which every distance is below.\<close>

datatype closest = Infinity | Finite real

fun below :: "real \<Rightarrow> closest \<Rightarrow> bool" where
  "below d Infinity = True"
| "below d (Finite c) = (d < c)"


record RoadInfo =
  info_position :: Vec3
  info_direction :: Vec3
  info_distance :: closest
  info_t :: real

text \<open>The body shared by both search loops of \<open>getRoadInfo\<close>, on \<open>(closestT, closestDistance)\<close>.\<close>

definition sample_at ::
  "CatmullRomSpline \<Rightarrow> Vec3 \<Rightarrow> real \<Rightarrow> real \<times> closest \<Rightarrow> error + (real \<times> closest)"
where
  "sample_at sp worldPos t st =
     (case getPoint sp t of
        Inl e \<Rightarrow> Inl e
      | Inr point \<Rightarrow>
          let d = Vec3_distance worldPos point
          in if below d (snd st) then Inr (t, Finite d) else Inr st)"

fun coarse_search ::
  "CatmullRomSpline \<Rightarrow> Vec3 \<Rightarrow> nat list \<Rightarrow> real \<times> closest \<Rightarrow> error + (real \<times> closest)"
where
  "coarse_search sp worldPos [] st = Inr st"
| "coarse_search sp worldPos (i # is) st =
     (case sample_at sp worldPos (real i / 100) st of
        Inl e \<Rightarrow> Inl e
      | Inr st' \<Rightarrow> coarse_search sp worldPos is st')"

fun refine_search ::
  "CatmullRomSpline \<Rightarrow> Vec3 \<Rightarrow> int list \<Rightarrow> real \<times> closest \<Rightarrow> error + (real \<times> closest)"
where
  "refine_search sp worldPos [] st = Inr st"
| "refine_search sp worldPos (i # is) st =
     (let t = max 0 (min 1 (fst st + of_int i * 0.01))
      in case sample_at sp worldPos t st of
           Inl e \<Rightarrow> Inl e
         | Inr st' \<Rightarrow> refine_search sp worldPos is st')"

definition getRoadInfo :: "RoadSystem \<Rightarrow> Vec3 \<Rightarrow> error + RoadInfo option" where
  "getRoadInfo rs worldPos =
     (case spline rs of
        None \<Rightarrow> Inr None
      | Some sp \<Rightarrow>
          (case coarse_search sp worldPos [0..<101] (0, Infinity) of
             Inl e \<Rightarrow> Inl e
           | Inr st \<Rightarrow>
               (case refine_search sp worldPos [-10..10] st of
                  Inl e \<Rightarrow> Inl e
                | Inr (closestT, closestDistance) \<Rightarrow>
                    (case (getPoint sp closestT, getTangent sp closestT) of
                       (Inr p, Inr d) \<Rightarrow>
                         Inr (Some \<lparr>info_position = p, info_direction = d,
                                    info_distance = closestDistance, info_t = closestT\<rparr>)
                     | _ \<Rightarrow> Inl TypeError))))"



text \<open>The distance between two points in the projection to the XZ plane.\<close>

definition xz_distance :: "Vec3 \<Rightarrow> Vec3 \<Rightarrow> real" where
  "xz_distance a b = sqrt ((vx a - vx b)\<^sup>2 + (vz a - vz b)\<^sup>2)"


text \<open>The loop invariant of \<open>extendRoad\<close>: the path only grows at its end, the current
  position is the last waypoint, the heading is a unit vector of the XZ plane, and every
  appended waypoint lies one segment length from its predecessor in the XZ projection.\<close>

definition road_inv :: "RoadSystem \<Rightarrow> Vec3 list \<Rightarrow> nat \<Rightarrow> Vec3 list \<times> Vec3 \<times> Vec3 \<Rightarrow> bool" where
  "road_inv rs pth0 n st =
     (case st of (pth, pos, dir) \<Rightarrow>
        length pth = length pth0 + n \<and> take (length pth0) pth = pth0 \<and> last pth = pos
        \<and> (vx dir)\<^sup>2 + (vz dir)\<^sup>2 = 1
        \<and> (\<forall>i. length pth0 \<le> Suc i \<and> Suc i < length pth \<longrightarrow>
               xz_distance (pth ! i) (pth ! Suc i) = segmentLength rs))"

section \<open>TerrainSystem\<close>

text \<open>
  A chunk key is the string \<open>`${x},${z}`\<close>, which determines both numbers; the model keeps
  the pair. The \<open>Map\<close> of chunks and the \<open>Set\<close>s of keys iterate in insertion order, so
  they are lists: \<open>map_set\<close> overwrites in place or appends, \<open>set_add\<close> appends a new
  element.
\<close>

type_synonym grid_key = "real \<times> real"

definition getChunkKey :: "real \<Rightarrow> real \<Rightarrow> grid_key" where
  "getChunkKey x z = (x, z)"

fun map_set :: "'k \<Rightarrow> 'v \<Rightarrow> ('k \<times> 'v) list \<Rightarrow> ('k \<times> 'v) list" where
  "map_set k v [] = [(k, v)]"
| "map_set k v (e # es) = (if fst e = k then (k, v) # es else e # map_set k v es)"

definition map_delete :: "'k \<Rightarrow> ('k \<times> 'v) list \<Rightarrow> ('k \<times> 'v) list" where
  "map_delete k es = filter (\<lambda>e. fst e \<noteq> k) es"

definition set_add :: "'k \<Rightarrow> 'k list \<Rightarrow> 'k list" where
  "set_add k ks = (if k \<in> set ks then ks else ks @ [k])"

definition set_delete :: "'k \<Rightarrow> 'k list \<Rightarrow> 'k list" where
  "set_delete k ks = removeAll k ks"

text \<open>
  The WebGL context is outside the repository. It hands out buffer objects; the model
  numbers them and keeps the list of those not yet deleted. Uploading data to a buffer
  changes nothing that the terrain reads back.
\<close>

record GL =
  next_buffer :: nat
  live_buffers :: "nat list"

definition createBuffer :: "GL \<Rightarrow> nat \<times> GL" where
  "createBuffer g =
     (next_buffer g,
      g\<lparr>next_buffer := next_buffer g + 1, live_buffers := live_buffers g @ [next_buffer g]\<rparr>)"

definition deleteBuffer :: "GL \<Rightarrow> nat \<Rightarrow> GL" where
  "deleteBuffer g b = g\<lparr>live_buffers := removeAll b (live_buffers g)\<rparr>"

record Buffers =
  buf_vertices :: nat
  buf_indices :: nat

record Bounds =
  center :: Vec3
  extents :: Vec3
  bounds_min :: Vec3
  bounds_max :: Vec3

text \<open>The level of detail of a chunk is a number; \<open>LodNaN\<close> is the \<open>NaN\<close> that the distance
  formula yields when it divides zero by zero.\<close>

datatype lodval = Lod int | LodNaN

record TerrainChunk =
  chunk_x :: real
  chunk_z :: real
  lod :: lodval
  worldX :: real
  worldZ :: real
  chunk_key :: "grid_key option"
  vertices :: "real list option"
  indices :: "nat list option"
  buffers :: "Buffers option"
  transform :: "real list option"
  bounds :: "Bounds option"
  visible :: bool
  vertexCount :: nat
  indexCount :: nat
  triangleCount :: nat

record Settings =
  wireframe :: bool
  showChunkBounds :: bool
  autoLOD :: bool
  enableFrustumCulling :: bool
  enableDistanceCulling :: bool

text \<open>\<open>stats.generationTime\<close> is a difference of wall-clock readings and is left out.\<close>

record Stats =
  chunksGenerated :: nat
  chunksVisible :: nat
  trianglesRendered :: nat

record TerrainSystem =
  gl :: GL
  chunkSize :: int
  chunkWorldSize :: real
  renderDistance :: real
  lodLevels :: int
  heightScale :: real
  chunks :: "(grid_key \<times> TerrainChunk) list"
  chunkPool :: "TerrainChunk list"
  loadedChunks :: "grid_key list"
  visibleChunks :: "grid_key list"
  biomeNoise :: BiomeNoise
  stats :: Stats
  settings :: Settings

fun biome_id :: "biome \<Rightarrow> nat" where
  "biome_id Plains = 0"
| "biome_id Forest = 1"
| "biome_id Desert = 2"
| "biome_id Mountain = 3"
| "biome_id City = 4"

definition Mat4_create :: "real list" where
  "Mat4_create = [1, 0, 0, 0,  0, 1, 0, 0,  0, 0, 1, 0,  0, 0, 0, 1]"

definition getHeightAt :: "TerrainSystem \<Rightarrow> real \<Rightarrow> real \<Rightarrow> real" where
  "getHeightAt ts x z =
     (let b = getBiome (biomeNoise ts) x z in getBlendedHeight (biomeNoise ts) x z b)"

definition getBiomeAt :: "TerrainSystem \<Rightarrow> real \<Rightarrow> real \<Rightarrow> biome" where
  "getBiomeAt ts x z = getBiome (biomeNoise ts) x z"

subsection \<open>The chunk pool\<close>

definition fresh_chunk :: TerrainChunk where
  "fresh_chunk =
     \<lparr>chunk_x = 0, chunk_z = 0, lod = Lod 0, worldX = 0, worldZ = 0, chunk_key = None,
      vertices = None, indices = None, buffers = None, transform = None, bounds = None,
      visible = False, vertexCount = 0, indexCount = 0, triangleCount = 0\<rparr>"

definition getChunkFromPool :: "TerrainSystem \<Rightarrow> TerrainChunk \<times> TerrainSystem" where
  "getChunkFromPool ts =
     (if length (chunkPool ts) > 0
      then (last (chunkPool ts), ts\<lparr>chunkPool := butlast (chunkPool ts)\<rparr>)
      else (fresh_chunk, ts))"

definition returnChunkToPool :: "TerrainSystem \<Rightarrow> TerrainChunk \<Rightarrow> TerrainSystem" where
  "returnChunkToPool ts chunk =
     (let chunk' = chunk\<lparr>vertices := None, indices := None, buffers := None, visible := False\<rparr>
      in ts\<lparr>chunkPool := chunkPool ts @ [chunk']\<rparr>)"

definition unloadChunk :: "TerrainSystem \<Rightarrow> grid_key \<Rightarrow> TerrainSystem" where
  "unloadChunk ts key =
     (case map_of (chunks ts) key of
        None \<Rightarrow> ts
      | Some chunk \<Rightarrow>
          let g = (case buffers chunk of
                     Some b \<Rightarrow> deleteBuffer (deleteBuffer (gl ts) (buf_vertices b)) (buf_indices b)
                   | None \<Rightarrow> gl ts);
              ts1 = returnChunkToPool (ts\<lparr>gl := g\<rparr>) chunk
          in ts1\<lparr>chunks := map_delete key (chunks ts1),
                 loadedChunks := set_delete key (loadedChunks ts1),
                 visibleChunks := set_delete key (visibleChunks ts1)\<rparr>)"

subsection \<open>Chunk geometry\<close>

text \<open>\<open>this.chunkSize >> chunk.lod\<close>: the shift count is the operand converted to an
  unsigned 32-bit integer and masked to five bits; \<open>NaN\<close> converts to 0.\<close>

definition shift_right :: "int \<Rightarrow> lodval \<Rightarrow> int" where
  "shift_right a l =
     drop_bit (case l of Lod k \<Rightarrow> nat (k mod 32) | LodNaN \<Rightarrow> 0) (to_int32 a)"

definition chunk_resolution :: "TerrainSystem \<Rightarrow> TerrainChunk \<Rightarrow> nat" where
  "chunk_resolution ts chunk = nat (max 8 (shift_right (chunkSize ts) (lod chunk)))"

definition heightfield :: "TerrainSystem \<Rightarrow> TerrainChunk \<Rightarrow> real list list" where
  "heightfield ts chunk =
     (let resolution = chunk_resolution ts chunk;
          step = chunkWorldSize ts / (real resolution - 1)
      in map (\<lambda>z. map (\<lambda>x.
           let worldPosX = worldX chunk + real x * step;
               worldPosZ = worldZ chunk + real z * step;
               b = getBiome (biomeNoise ts) worldPosX worldPosZ
           in getBlendedHeight (biomeNoise ts) worldPosX worldPosZ b) [0..<resolution])
         [0..<resolution])"

definition calculateNormal :: "real list list \<Rightarrow> nat \<Rightarrow> nat \<Rightarrow> nat \<Rightarrow> real \<Rightarrow> Vec3" where
  "calculateNormal heights x z resolution step =
     (let getHeight = (\<lambda>hx hz.
            let hx' = max 0 (min (int resolution - 1) hx);
                hz' = max 0 (min (int resolution - 1) hz)
            in heights ! nat hz' ! nat hx');
          left = getHeight (int x - 1) (int z);
          right = getHeight (int x + 1) (int z);
          up = getHeight (int x) (int z - 1);
          down = getHeight (int x) (int z + 1)
      in Vec3_normalize (Vec3 ((left - right) / (2 * step)) 2 ((up - down) / (2 * step))))"

text \<open>
  The source fills the arrays \<open>vertices\<close>, \<open>normals\<close>, \<open>texCoords\<close> and \<open>biomeData\<close> in one pass
  over the grid and then interleaves them, nine numbers per vertex; \<open>vertex_data\<close> is the
  interleaved array. The index array is stored as \<open>Uint16Array\<close>, which keeps each index
  modulo \<open>65536\<close>. The grid has at least \<open>8 \<times> 8\<close> vertices, so the running minimum and
  maximum that start at \<open>\<plusminus>Infinity\<close> end as the least and greatest height.
\<close>

definition vertex_data :: "TerrainSystem \<Rightarrow> TerrainChunk \<Rightarrow> real list" where
  "vertex_data ts chunk =
     (let resolution = chunk_resolution ts chunk;
          step = chunkWorldSize ts / (real resolution - 1);
          heights = heightfield ts chunk
      in concat (map (\<lambda>z. concat (map (\<lambda>x.
           let worldPosX = worldX chunk + real x * step;
               worldPosZ = worldZ chunk + real z * step;
               height = heights ! z ! x;
               normal = calculateNormal heights x z resolution step;
               b = getBiome (biomeNoise ts) worldPosX worldPosZ
           in [worldPosX, height, worldPosZ, vx normal, vy normal, vz normal,
               real x / (real resolution - 1), real z / (real resolution - 1),
               real (biome_id b)]) [0..<resolution])) [0..<resolution]))"

definition index_data :: "nat \<Rightarrow> nat list" where
  "index_data resolution =
     concat (map (\<lambda>z. concat (map (\<lambda>x.
       let topLeft = z * resolution + x;
           topRight = topLeft + 1;
           bottomLeft = (z + 1) * resolution + x;
           bottomRight = bottomLeft + 1
       in [topLeft, bottomLeft, topRight, topRight, bottomLeft, bottomRight])
       [0..<resolution - 1])) [0..<resolution - 1])"

definition generateChunkGeometry :: "TerrainSystem \<Rightarrow> TerrainChunk \<Rightarrow> TerrainChunk" where
  "generateChunkGeometry ts chunk =
     (let resolution = chunk_resolution ts chunk;
          heights = concat (heightfield ts chunk);
          minY = Min (set heights);
          maxY = Max (set heights);
          idx = index_data resolution;
          w = chunkWorldSize ts
      in chunk\<lparr>vertices := Some (vertex_data ts chunk),
               indices := Some (map (\<lambda>i. i mod 65536) idx),
               vertexCount := resolution * resolution,
               indexCount := length idx,
               triangleCount := length idx div 3,
               bounds := Some
                 \<lparr>center = Vec3 (worldX chunk + w / 2) ((minY + maxY) / 2) (worldZ chunk + w / 2),
                  extents = Vec3 (w / 2) ((maxY - minY) / 2) (w / 2),
                  bounds_min = Vec3 (worldX chunk) minY (worldZ chunk),
                  bounds_max = Vec3 (worldX chunk + w) maxY (worldZ chunk + w)\<rparr>,
               transform := Some Mat4_create\<rparr>)"

definition createChunkBuffers :: "TerrainSystem \<Rightarrow> TerrainChunk \<Rightarrow> TerrainChunk \<times> TerrainSystem" where
  "createChunkBuffers ts chunk =
     (let (v, g1) = createBuffer (gl ts);
          (i, g2) = createBuffer g1
      in (chunk\<lparr>buffers := Some \<lparr>buf_vertices = v, buf_indices = i\<rparr>\<rparr>, ts\<lparr>gl := g2\<rparr>))"

text \<open>\<open>generateChunk\<close> returns the chunk and leaves the system changed; a key that is
  already loaded is not generated again.\<close>

definition generateChunk ::
  "TerrainSystem \<Rightarrow> real \<Rightarrow> real \<Rightarrow> lodval \<Rightarrow> TerrainChunk option \<times> TerrainSystem"
where
  "generateChunk ts chunkX chunkZ l =
     (let key = getChunkKey chunkX chunkZ
      in if key \<in> set (loadedChunks ts) then (map_of (chunks ts) key, ts)
         else
           let (chunk, ts1) = getChunkFromPool ts;
               chunk1 = chunk\<lparr>chunk_x := chunkX, chunk_z := chunkZ, lod := l,
                              worldX := chunkX * chunkWorldSize ts1,
                              worldZ := chunkZ * chunkWorldSize ts1,
                              chunk_key := Some key\<rparr>;
               chunk2 = generateChunkGeometry ts1 chunk1;
               (chunk3, ts2) = createChunkBuffers ts1 chunk2;
               ts3 = ts2\<lparr>chunks := map_set key chunk3 (chunks ts2),
                          loadedChunks := set_add key (loadedChunks ts2),
                          stats := (stats ts2)\<lparr>chunksGenerated := chunksGenerated (stats ts2) + 1\<rparr>\<rparr>
           in (Some chunk3, ts3))"

text \<open>The two nested loops of \<open>generateInitialChunks\<close>: \<open>generate_row\<close> is the inner loop
  over \<open>z\<close> for one \<open>x\<close>, \<open>generate_grid\<close> the outer loop over \<open>x\<close>.\<close>

definition generate_row :: "lodval \<Rightarrow> int list \<Rightarrow> int \<Rightarrow> TerrainSystem \<Rightarrow> TerrainSystem" where
  "generate_row l zs x ts = fold (\<lambda>z ts2. snd (generateChunk ts2 (of_int x) (of_int z) l)) zs ts"

definition generate_grid :: "lodval \<Rightarrow> int list \<Rightarrow> int list \<Rightarrow> TerrainSystem \<Rightarrow> TerrainSystem" where
  "generate_grid l xs zs ts = fold (generate_row l zs) xs ts"

definition generateInitialChunks :: "TerrainSystem \<Rightarrow> TerrainSystem" where
  "generateInitialChunks ts =
     (let initialRadius = 2
      in generate_grid (Lod 0) [- initialRadius..initialRadius] [- initialRadius..initialRadius] ts)"

definition TerrainSystem_new :: "GL \<Rightarrow> TerrainSystem" where
  "TerrainSystem_new g =
     generateInitialChunks
       \<lparr>gl = g, chunkSize = 128, chunkWorldSize = 500, renderDistance = 2000, lodLevels = 4,
        heightScale = 100, chunks = [], chunkPool = [], loadedChunks = [], visibleChunks = [],
        biomeNoise = BiomeNoise_new 12345,
        stats = \<lparr>chunksGenerated = 0, chunksVisible = 0, trianglesRendered = 0\<rparr>,
        settings = \<lparr>wireframe = False, showChunkBounds = False, autoLOD = True,
                    enableFrustumCulling = True, enableDistanceCulling = True\<rparr>\<rparr>"

subsection \<open>Streaming\<close>

record RequiredChunk =
  req_x :: real
  req_z :: real
  req_lod :: lodval
  req_distance :: real

text \<open>The values that \<open>for (v = lo; v <= hi; v++)\<close> visits.\<close>

definition for_range :: "real \<Rightarrow> real \<Rightarrow> real list" where
  "for_range lo hi = map (\<lambda>k. lo + real k) [0..<nat (\<lfloor>hi - lo\<rfloor> + 1)]"

definition camChunk :: "TerrainSystem \<Rightarrow> Vec3 \<Rightarrow> real \<times> real" where
  "camChunk ts cameraPosition =
     (of_int \<lfloor>vx cameraPosition / chunkWorldSize ts\<rfloor>,
      of_int \<lfloor>vz cameraPosition / chunkWorldSize ts\<rfloor>)"

definition chunk_distance :: "TerrainSystem \<Rightarrow> Vec3 \<Rightarrow> grid_key \<Rightarrow> real" where
  "chunk_distance ts cameraPosition k =
     (case camChunk ts cameraPosition of (camChunkX, camChunkZ) \<Rightarrow>
        sqrt ((fst k - camChunkX)\<^sup>2 + (snd k - camChunkZ)\<^sup>2))"

text \<open>
  The level of detail of a required chunk. \<open>maxDistance / lodLevels\<close> is zero exactly when
  \<open>maxDistance\<close> is, and then the only distance within \<open>maxDistance\<close> is zero, so the
  quotient is \<open>NaN\<close>. With \<open>lodLevels = 0\<close> the divisor is \<open>Infinity\<close> and the quotient 0,
  which is what division by zero gives in HOL.
\<close>

definition required_lod :: "TerrainSystem \<Rightarrow> real \<Rightarrow> real \<Rightarrow> lodval" where
  "required_lod ts maxDistance distance =
     (if autoLOD (settings ts)
      then if maxDistance = 0 then LodNaN
           else Lod (min \<lfloor>distance / (maxDistance / of_int (lodLevels ts))\<rfloor> (lodLevels ts - 1))
      else Lod 0)"

definition getRequiredChunks :: "TerrainSystem \<Rightarrow> Vec3 \<Rightarrow> RequiredChunk list" where
  "getRequiredChunks ts cameraPosition =
     (case camChunk ts cameraPosition of (camChunkX, camChunkZ) \<Rightarrow>
        let maxDistance = renderDistance ts / chunkWorldSize ts
        in concat (map (\<lambda>x. concat (map (\<lambda>z.
             let distance = chunk_distance ts cameraPosition (x, z)
             in if distance \<le> maxDistance
                then [\<lparr>req_x = x, req_z = z, req_lod = required_lod ts maxDistance distance,
                       req_distance = distance\<rparr>]
                else [])
             (for_range (camChunkZ - maxDistance) (camChunkZ + maxDistance))))
           (for_range (camChunkX - maxDistance) (camChunkX + maxDistance))))"

text \<open>Deleting the key under the cursor while iterating a \<open>Set\<close> does not disturb the
  iteration, so the loop runs over the keys loaded when it starts.\<close>

definition unloadDistantChunks :: "TerrainSystem \<Rightarrow> Vec3 \<Rightarrow> RequiredChunk list \<Rightarrow> TerrainSystem" where
  "unloadDistantChunks ts cameraPosition requiredChunks =
     (let requiredKeys = map (\<lambda>c. getChunkKey (req_x c) (req_z c)) requiredChunks
      in fold (\<lambda>key ts1. if key \<notin> set requiredKeys then unloadChunk ts1 key else ts1)
           (loadedChunks ts) ts)"

type_synonym plane = "real \<times> real \<times> real \<times> real"

definition isChunkInFrustum :: "Bounds \<Rightarrow> plane list \<Rightarrow> bool" where
  "isChunkInFrustum b planes =
     list_all (\<lambda>(a, b1, c, d).
        let normal = Vec3 a b1 c;
            positiveVertex = Vec3
              (if vx normal \<ge> 0 then vx (center b) + vx (extents b) else vx (center b) - vx (extents b))
              (if vy normal \<ge> 0 then vy (center b) + vy (extents b) else vy (center b) - vy (extents b))
              (if vz normal \<ge> 0 then vz (center b) + vz (extents b) else vz (center b) - vz (extents b))
        in \<not> Vec3_dot normal positiveVertex + d < 0) planes"

text \<open>
  One pass of the loop of \<open>updateVisibility\<close> over a chunk of the map. Reading
  \<open>chunk.bounds.center\<close> throws when \<open>bounds\<close> is \<open>null\<close>.
\<close>

definition chunk_visibility ::
  "TerrainSystem \<Rightarrow> Vec3 \<Rightarrow> plane list option \<Rightarrow> TerrainChunk \<Rightarrow> error + bool"
where
  "chunk_visibility ts cameraPosition frustumPlanes chunk =
     (case bounds chunk of
        None \<Rightarrow>
          if enableDistanceCulling (settings ts)
             \<or> (enableFrustumCulling (settings ts) \<and> frustumPlanes \<noteq> None)
          then Inl TypeError else Inr True
      | Some b \<Rightarrow>
          let v1 = (if enableDistanceCulling (settings ts)
                    then let chunkCenter = Vec3 (worldX chunk + chunkWorldSize ts / 2)
                                                (vy (center b))
                                                (worldZ chunk + chunkWorldSize ts / 2);
                             distance = Vec3_distance cameraPosition chunkCenter
                         in \<not> distance > renderDistance ts
                    else True)
          in Inr (case frustumPlanes of
                    Some planes \<Rightarrow>
                      if v1 \<and> enableFrustumCulling (settings ts)
                      then isChunkInFrustum b planes else v1
                  | None \<Rightarrow> v1))"

fun visibility_loop ::
  "TerrainSystem \<Rightarrow> Vec3 \<Rightarrow> plane list option \<Rightarrow> (grid_key \<times> TerrainChunk) list
     \<Rightarrow> (grid_key \<times> TerrainChunk) list \<times> grid_key list \<times> nat
     \<Rightarrow> error + ((grid_key \<times> TerrainChunk) list \<times> grid_key list \<times> nat)"
where
  "visibility_loop ts cam planes [] acc = Inr acc"
| "visibility_loop ts cam planes ((key, chunk) # rest) (seen, vis, tris) =
     (case chunk_visibility ts cam planes chunk of
        Inl e \<Rightarrow> Inl e
      | Inr v \<Rightarrow>
          visibility_loop ts cam planes rest
            (seen @ [(key, chunk\<lparr>visible := v\<rparr>)],
             if v then set_add key vis else vis,
             if v then tris + triangleCount chunk else tris))"

definition updateVisibility :: "TerrainSystem \<Rightarrow> Vec3 \<Rightarrow> plane list option \<Rightarrow> error + TerrainSystem" where
  "updateVisibility ts cameraPosition frustumPlanes =
     (case visibility_loop ts cameraPosition frustumPlanes (chunks ts) ([], [], 0) of
        Inl e \<Rightarrow> Inl e
      | Inr (cs, vis, tris) \<Rightarrow>
          Inr (ts\<lparr>chunks := cs, visibleChunks := vis,
                  stats := (stats ts)\<lparr>trianglesRendered := tris\<rparr>\<rparr>))"

text \<open>The body of the loop of \<open>update\<close> over the required chunks.\<close>

definition generate_step :: "RequiredChunk \<Rightarrow> TerrainSystem \<Rightarrow> TerrainSystem" where
  "generate_step c ts' =
     (let key = getChunkKey (req_x c) (req_z c)
      in if key \<notin> set (loadedChunks ts')
         then snd (generateChunk ts' (req_x c) (req_z c) (req_lod c)) else ts')"

definition update :: "TerrainSystem \<Rightarrow> Vec3 \<Rightarrow> plane list option \<Rightarrow> error + TerrainSystem" where
  "update ts cameraPosition frustumPlanes =
     (let requiredChunks = getRequiredChunks ts cameraPosition;
          ts1 = unloadDistantChunks ts cameraPosition requiredChunks;
          ts2 = fold generate_step requiredChunks ts1
      in case updateVisibility ts2 cameraPosition frustumPlanes of
           Inl e \<Rightarrow> Inl e
         | Inr ts3 \<Rightarrow>
             Inr (ts3\<lparr>stats := (stats ts3)\<lparr>chunksVisible := length (visibleChunks ts3)\<rparr>\<rparr>))"

subsection \<open>Settings and shutdown\<close>

record SettingsUpdate =
  new_wireframe :: "bool option"
  new_showChunkBounds :: "bool option"
  new_autoLOD :: "bool option"
  new_enableFrustumCulling :: "bool option"
  new_enableDistanceCulling :: "bool option"
  new_chunkSize :: "int option"

definition unloadAll :: "TerrainSystem \<Rightarrow> TerrainSystem" where
  "unloadAll ts = fold (\<lambda>key ts1. unloadChunk ts1 key) (loadedChunks ts) ts"

definition regenerateAllChunks :: "TerrainSystem \<Rightarrow> TerrainSystem" where
  "regenerateAllChunks ts = generateInitialChunks (unloadAll ts)"

definition assign_settings :: "Settings \<Rightarrow> SettingsUpdate \<Rightarrow> Settings" where
  "assign_settings s u =
     \<lparr>wireframe = (case new_wireframe u of Some v \<Rightarrow> v | None \<Rightarrow> wireframe s),
      showChunkBounds = (case new_showChunkBounds u of Some v \<Rightarrow> v | None \<Rightarrow> showChunkBounds s),
      autoLOD = (case new_autoLOD u of Some v \<Rightarrow> v | None \<Rightarrow> autoLOD s),
      enableFrustumCulling =
        (case new_enableFrustumCulling u of Some v \<Rightarrow> v | None \<Rightarrow> enableFrustumCulling s),
      enableDistanceCulling =
        (case new_enableDistanceCulling u of Some v \<Rightarrow> v | None \<Rightarrow> enableDistanceCulling s)\<rparr>"

definition updateSettings :: "TerrainSystem \<Rightarrow> SettingsUpdate \<Rightarrow> TerrainSystem" where
  "updateSettings ts u =
     (let ts1 = ts\<lparr>settings := assign_settings (settings ts) u\<rparr>
      in case new_chunkSize u of
           Some n \<Rightarrow>
             if n \<noteq> 0 \<and> n \<noteq> chunkSize ts1
             then regenerateAllChunks (ts1\<lparr>chunkSize := n\<rparr>) else ts1
         | None \<Rightarrow> ts1)"

definition destroy :: "TerrainSystem \<Rightarrow> TerrainSystem" where
  "destroy ts =
     (unloadAll ts)\<lparr>chunks := [], loadedChunks := [], visibleChunks := [], chunkPool := []\<rparr>"

text \<open>
  The calls a run makes on a terrain system after its construction. \<open>SetRenderDistance\<close>
  is the assignment \<open>terrain.renderDistance = ...\<close> of the settings screen.
\<close>

datatype terrain_call =
    Update Vec3 "plane list option"
  | GenerateChunk real real lodval
  | UnloadChunk grid_key
  | UpdateSettings SettingsUpdate
  | RegenerateAllChunks
  | SetRenderDistance real
  | Destroy

fun call :: "TerrainSystem \<Rightarrow> terrain_call \<Rightarrow> error + TerrainSystem" where
  "call ts (Update cameraPosition frustumPlanes) = update ts cameraPosition frustumPlanes"
| "call ts (GenerateChunk x z l) = Inr (snd (generateChunk ts x z l))"
| "call ts (UnloadChunk key) = Inr (unloadChunk ts key)"
| "call ts (UpdateSettings u) = Inr (updateSettings ts u)"
| "call ts RegenerateAllChunks = Inr (regenerateAllChunks ts)"
| "call ts (SetRenderDistance d) = Inr (ts\<lparr>renderDistance := d\<rparr>)"
| "call ts Destroy = Inr (destroy ts)"

fun run :: "TerrainSystem \<Rightarrow> terrain_call list \<Rightarrow> error + TerrainSystem" where
  "run ts [] = Inr ts"
| "run ts (c # cs) = (case call ts c of Inl e \<Rightarrow> Inl e | Inr ts' \<Rightarrow> run ts' cs)"

text \<open>
  Two properties of the chunk registry that the constructor establishes and every call
  keeps: each loaded key has a chunk in the map, and each chunk of the map has its
  bounding box.
\<close>

definition registry_ok :: "TerrainSystem \<Rightarrow> bool" where
  "registry_ok ts =
     (list_all (\<lambda>k. map_of (chunks ts) k \<noteq> None) (loadedChunks ts)
      \<and> list_all (\<lambda>e. bounds (snd e) \<noteq> None) (chunks ts))"

text \<open>The chunk that \<open>generateChunk\<close> stores under a key that was not loaded.\<close>

definition built_chunk :: "TerrainSystem \<Rightarrow> real \<Rightarrow> real \<Rightarrow> lodval \<Rightarrow> TerrainChunk" where
  "built_chunk ts x z l = the (fst (generateChunk ts x z l))"


text \<open>A WebGL context that has handed out no buffer yet.\<close>

definition new_context :: GL where
  "new_context = \<lparr>next_buffer = 0, live_buffers = []\<rparr>"


section \<open>Verification\<close>


lemma to_int32_and_255: "to_int32 k AND 255 = k mod 256"
proof -
  have m: "(255::int) = mask 8" by (simp add: mask_eq_exp_minus_1)
  have "to_int32 k AND 255 = take_bit 8 (signed_take_bit 31 k)"
    unfolding to_int32_def m by (simp add: take_bit_eq_mask)
  also have "\<dots> = take_bit 8 k" by (rule take_bit_signed_take_bit) simp
  also have "\<dots> = k mod 256" by (simp add: take_bit_eq_mod)
  finally show ?thesis .
qed

lemma cell_index_bound: "nat (to_int32 k AND 255) < 256"
  by (simp add: to_int32_and_255)

lemma fade_nonneg: "0 \<le> t \<Longrightarrow> 0 \<le> fade t"
proof -
  assume t: "0 \<le> t"
  have q: "t * (t * 6 - 15) + 10 = 6 * (t - 5/4)\<^sup>2 + 5/8"
    by (simp add: power2_eq_square algebra_simps)
  have "0 \<le> t * (t * 6 - 15) + 10" unfolding q by simp
  with t show ?thesis unfolding fade_def by simp
qed

lemma fade_mirror: "fade (1 - t) = 1 - fade t"
  by (simp add: fade_def algebra_simps)

lemma fade_le_one: "t \<le> 1 \<Longrightarrow> fade t \<le> 1"
  using fade_nonneg [of "1 - t"] by (simp add: fade_mirror)

lemma fade_half: "fade t - 1/2 = (t - 1/2) * (6 * (t * (1 - t))\<^sup>2 + 2 * (t * (1 - t)) + 1)"
  by (simp add: fade_def power2_eq_square algebra_simps)

lemma fade_balance: 
  assumes "0 \<le> t" "t \<le> 1"
  shows "t + fade t * (1 - 2 * t) \<le> 1/2"
proof -
  define q where "q = 6 * (t * (1 - t))\<^sup>2 + 2 * (t * (1 - t)) + 1"
  have "0 \<le> t * (1 - t)" using assms by simp
  then have q0: "0 \<le> q" unfolding q_def by simp
  have f: "fade t = 1/2 + (t - 1/2) * q" using fade_half [of t] unfolding q_def by simp
  have "t + fade t * (1 - 2 * t) - 1/2 = - 2 * ((t - 1/2)\<^sup>2 * q)"
    unfolding f by (simp add: power2_eq_square algebra_simps)
  moreover have "0 \<le> (t - 1/2)\<^sup>2 * q" using q0 by simp
  ultimately show ?thesis by linarith
qed

lemma grad_cases: "grad h x y = x + y \<or> grad h x y = x - y \<or> grad h x y = y - x \<or> grad h x y = - x - y"
  unfolding grad_def Let_def by auto

lemma grad_abs: "\<bar>grad h x y\<bar> \<le> \<bar>x\<bar> + \<bar>y\<bar>"
  using grad_cases [of h x y] by auto

lemma lerp_abs:
  assumes "0 \<le> t" "t \<le> 1" "\<bar>a\<bar> \<le> A" "\<bar>b\<bar> \<le> B"
  shows "\<bar>lerp a b t\<bar> \<le> lerp A B t"
proof -
  have e: "lerp a b t = (1 - t) * a + t * b" "lerp A B t = (1 - t) * A + t * B"
    by (simp_all add: lerp_def algebra_simps)
  have "\<bar>(1 - t) * a + t * b\<bar> \<le> \<bar>(1 - t) * a\<bar> + \<bar>t * b\<bar>" by (rule abs_triangle_ineq)
  also have "\<dots> = (1 - t) * \<bar>a\<bar> + t * \<bar>b\<bar>" using assms by (simp add: abs_mult)
  also have "\<dots> \<le> (1 - t) * A + t * B"
    using assms by (intro add_mono mult_left_mono) auto
  finally show ?thesis unfolding e .
qed

lemma perlin2D_abs: "\<bar>perlin2D ng x y\<bar> \<le> 1"
proof -
  define xf where "xf = x - of_int \<lfloor>x\<rfloor>"
  define yf where "yf = y - of_int \<lfloor>y\<rfloor>"
  have xr: "0 \<le> xf" "xf \<le> 1" and yr: "0 \<le> yf" "yf \<le> 1"
    unfolding xf_def yf_def by linarith+
  define u where "u = fade xf"
  define v where "v = fade yf"
  have ur: "0 \<le> u" "u \<le> 1" and vr: "0 \<le> v" "v \<le> 1"
    unfolding u_def v_def using xr yr by (simp_all add: fade_nonneg fade_le_one)
  have g: "\<bar>grad h1 xf yf\<bar> \<le> xf + yf" "\<bar>grad h2 (xf - 1) yf\<bar> \<le> (1 - xf) + yf"
    "\<bar>grad h3 xf (yf - 1)\<bar> \<le> xf + (1 - yf)" "\<bar>grad h4 (xf - 1) (yf - 1)\<bar> \<le> (1 - xf) + (1 - yf)"
    for h1 h2 h3 h4
    using grad_abs [of h1 xf yf] grad_abs [of h2 "xf - 1" yf] grad_abs [of h3 xf "yf - 1"]
      grad_abs [of h4 "xf - 1" "yf - 1"] xr yr by simp_all
  have "\<bar>lerp (lerp (grad h1 xf yf) (grad h2 (xf - 1) yf) u)
           (lerp (grad h3 xf (yf - 1)) (grad h4 (xf - 1) (yf - 1)) u) v\<bar>
      \<le> lerp (lerp (xf + yf) ((1 - xf) + yf) u) (lerp (xf + (1 - yf)) ((1 - xf) + (1 - yf)) u) v"
    for h1 h2 h3 h4
    by (intro lerp_abs ur vr g)
  also have "lerp (lerp (xf + yf) ((1 - xf) + yf) u) (lerp (xf + (1 - yf)) ((1 - xf) + (1 - yf)) u) v
      = (xf + u * (1 - 2 * xf)) + (yf + v * (1 - 2 * yf))"
    by (simp add: lerp_def algebra_simps)
  also have "\<dots> \<le> 1"
    using fade_balance [OF xr] fade_balance [OF yr] unfolding u_def v_def by linarith
  finally show ?thesis
    unfolding perlin2D_def Let_def xf_def yf_def u_def v_def by blast
qed


lemma seededRandom_call_range:
  "0 \<le> fst (seededRandom_call s) \<and> fst (seededRandom_call s) < 1"
  unfolding seededRandom_call_def Let_def by (simp; linarith)

lemma shuffle_index_le:
  assumes "0 \<le> r" "r < 1"
  shows "nat \<lfloor>r * (real (Suc i) + 1)\<rfloor> \<le> Suc i"
proof -
  have "r * (real (Suc i) + 1) < real (Suc i) + 1"
    using assms by (simp add: mult_less_cancel_right1)
  then have "\<lfloor>r * (real (Suc i) + 1)\<rfloor> < int (Suc i) + 1"
    by (simp add: floor_less_iff)
  then show ?thesis by linarith
qed

lemma shuffle_wf:
  "i < length perm \<Longrightarrow>
     length (shuffle i s perm) = length perm \<and> set (shuffle i s perm) \<subseteq> set perm"
proof (induction i arbitrary: s perm)
  case 0
  then show ?case by simp
next
  case (Suc i)
  obtain r s' where c: "seededRandom_call s = (r, s')" by (cases "seededRandom_call s")
  have r: "0 \<le> r" "r < 1" using seededRandom_call_range [of s] c by simp_all
  define j where "j = nat \<lfloor>r * (real (Suc i) + 1)\<rfloor>"
  have j: "j \<le> Suc i" unfolding j_def by (rule shuffle_index_le [OF r])
  define perm' where "perm' = perm[Suc i := perm ! j, j := perm ! Suc i]"
  have len: "length perm' = length perm" unfolding perm'_def by simp
  have "set perm' \<subseteq> insert (perm ! Suc i) (insert (perm ! j) (set perm))"
    unfolding perm'_def
    by (meson order_trans set_update_subset_insert insert_mono)
  moreover have "perm ! Suc i \<in> set perm" "perm ! j \<in> set perm"
    using Suc.prems j by simp_all
  ultimately have sub: "set perm' \<subseteq> set perm" by auto
  have "i < length perm'" using Suc.prems len by simp
  from Suc.IH [OF this, of s'] len sub
  have "length (shuffle i s' perm') = length perm \<and> set (shuffle i s' perm') \<subseteq> set perm"
    by auto
  then show ?case by (simp add: c j_def perm'_def Let_def)
qed

lemma generatePermutation_length: "length (generatePermutation s) = 512"
  using shuffle_wf [of 255 "[0..<256]" s] by (simp add: generatePermutation_def Let_def)

lemma generatePermutation_entries:
  assumes "k < 512"
  shows "generatePermutation s ! k < 256"
proof -
  have "generatePermutation s ! k \<in> set (generatePermutation s)"
    using assms by (simp add: generatePermutation_length)
  also have "set (generatePermutation s) \<subseteq> set [0..<256]"
    using shuffle_wf [of 255 "[0..<256]" s] by (simp add: generatePermutation_def Let_def)
  finally show ?thesis by simp
qed

text \<open>Every table lookup of \<open>perlin2D\<close> on a constructed generator is inside the table.\<close>

lemma perlin2D_lookups_in_range:
  fixes s x y
  defines "p \<equiv> permutation (NoiseGenerator_new s)"
  defines "X \<equiv> nat (to_int32 \<lfloor>x\<rfloor> AND 255)" and "Y \<equiv> nat (to_int32 \<lfloor>y\<rfloor> AND 255)"
  shows "X + 1 < length p" and "p ! X + Y + 1 < length p" and "p ! (X + 1) + Y + 1 < length p"
    and "p ! (p ! X + Y) < length p" and "p ! (p ! X + Y + 1) < length p"
    and "p ! (p ! (X + 1) + Y) < length p" and "p ! (p ! (X + 1) + Y + 1) < length p"
proof -
  have len: "length p = 512" and ent: "\<And>k. k < 512 \<Longrightarrow> p ! k < 256"
    unfolding p_def NoiseGenerator_new_def
    by (simp_all add: generatePermutation_length generatePermutation_entries)
  have X: "X < 256" and Y: "Y < 256" unfolding X_def Y_def by (rule cell_index_bound)+
  have a: "p ! X < 256" and b: "p ! (X + 1) < 256" using X by (auto intro: ent)
  show "X + 1 < length p" using X len by simp
  show A: "p ! X + Y + 1 < length p" using a Y len by simp
  show B: "p ! (X + 1) + Y + 1 < length p" using b Y len by simp
  have "p ! (p ! X + Y) < 256" using A len by (intro ent) simp
  then show "p ! (p ! X + Y) < length p" using len by simp
  have "p ! (p ! X + Y + 1) < 256" using A len by (intro ent) simp
  then show "p ! (p ! X + Y + 1) < length p" using len by simp
  have "p ! (p ! (X + 1) + Y) < 256" using B len by (intro ent) simp
  then show "p ! (p ! (X + 1) + Y) < length p" using len by simp
  have "p ! (p ! (X + 1) + Y + 1) < 256" using B len by (intro ent) simp
  then show "p ! (p ! (X + 1) + Y + 1) < length p" using len by simp
qed

lemma octaveNoise2D_loop_bound:
  assumes "0 < amplitude" "0 < persistence" "\<bar>val\<bar> \<le> maxValue"
  shows "\<bar>fst (octaveNoise2D_loop ng x y persistence n val amplitude frequency maxValue)\<bar>
           \<le> snd (octaveNoise2D_loop ng x y persistence n val amplitude frequency maxValue)
         \<and> (if n = 0 then maxValue else maxValue + amplitude)
           \<le> snd (octaveNoise2D_loop ng x y persistence n val amplitude frequency maxValue)"
  using assms
proof (induction n arbitrary: val amplitude frequency maxValue)
  case 0
  then show ?case by simp
next
  case (Suc n)
  let ?s = "perlin2D ng (x * frequency) (y * frequency)"
  have "\<bar>?s * amplitude\<bar> \<le> amplitude"
    using perlin2D_abs [of ng "x * frequency" "y * frequency"] Suc.prems(1)
    by (simp add: abs_mult mult_le_cancel_right1)
  then have v: "\<bar>val + ?s * amplitude\<bar> \<le> maxValue + amplitude"
    using Suc.prems(3) by linarith
  have a: "0 < amplitude * persistence" using Suc.prems by simp
  from Suc.IH [OF a Suc.prems(2) v, of "frequency * 2"] a
  show ?case by (auto split: if_splits)
qed

lemma ridgedNoise2D_loop_bound:
  assumes "0 < amplitude" "0 < persistence" "0 \<le> val" "0 \<le> maxValue"
  shows "0 \<le> fst (ridgedNoise2D_loop ng x y persistence n val amplitude frequency maxValue)
         \<and> 0 \<le> snd (ridgedNoise2D_loop ng x y persistence n val amplitude frequency maxValue)"
  using assms
proof (induction n arbitrary: val amplitude frequency maxValue)
  case 0
  then show ?case by simp
next
  case (Suc n)
  let ?n1 = "1 - \<bar>perlin2D ng (x * frequency) (y * frequency)\<bar>"
  have "0 \<le> ?n1 * ?n1 * amplitude" using Suc.prems(1) by simp
  then have v: "0 \<le> val + ?n1 * ?n1 * amplitude" using Suc.prems(3) by linarith
  have a: "0 < amplitude * persistence" and m: "0 \<le> maxValue + amplitude"
    using Suc.prems by simp_all
  from Suc.IH [OF a Suc.prems(2) v m, of "frequency * 2"]
  show ?case by (simp add: Let_def)
qed

lemma billow2D_loop_bound:
  assumes "0 < amplitude" "0 < persistence" "0 \<le> val" "0 \<le> maxValue"
  shows "0 \<le> fst (billow2D_loop ng x y persistence n val amplitude frequency maxValue)
         \<and> 0 \<le> snd (billow2D_loop ng x y persistence n val amplitude frequency maxValue)"
  using assms
proof (induction n arbitrary: val amplitude frequency maxValue)
  case 0
  then show ?case by simp
next
  case (Suc n)
  let ?n1 = "\<bar>perlin2D ng (x * frequency) (y * frequency)\<bar>"
  have "0 \<le> ?n1 * amplitude" using Suc.prems(1) by simp
  then have v: "0 \<le> val + ?n1 * amplitude" using Suc.prems(3) by linarith
  have a: "0 < amplitude * persistence" and m: "0 \<le> maxValue + amplitude"
    using Suc.prems by simp_all
  from Suc.IH [OF a Suc.prems(2) v m, of "frequency * 2"]
  show ?case by (simp add: Let_def)
qed

lemma octaveNoise2D_abs:
  assumes "1 \<le> octaves" "0 < persistence"
  shows "\<bar>octaveNoise2D ng x y octaves persistence scale\<bar> \<le> 1"
proof -
  obtain v m where l: "octaveNoise2D_loop ng x y persistence octaves 0 1 scale 0 = (v, m)"
    by (cases "octaveNoise2D_loop ng x y persistence octaves 0 1 scale 0")
  have "\<bar>v\<bar> \<le> m \<and> 1 \<le> m"
    using octaveNoise2D_loop_bound [of 1 persistence 0 0 ng x y octaves scale] assms l
    by (simp split: if_splits)
  then have "\<bar>v / m\<bar> \<le> 1" by (simp add: abs_if field_simps split: if_splits)
  then show ?thesis by (simp add: octaveNoise2D_def l)
qed

text \<open>
  Claim C6. On a generator built from any seed, \<open>perlin2D\<close> returns a value in \<open>[-1, 1]\<close> at
  every input, and for at least one octave and a positive persistence \<open>octaveNoise2D\<close>
  does too, at every input and for every scale. (Numbers are reals here.)
\<close>

theorem noise_range:
  assumes "1 \<le> octaves" and "0 < persistence"
  shows "- 1 \<le> perlin2D (NoiseGenerator_new s) x y \<and> perlin2D (NoiseGenerator_new s) x y \<le> 1
       \<and> - 1 \<le> octaveNoise2D (NoiseGenerator_new s) x y octaves persistence scale
       \<and> octaveNoise2D (NoiseGenerator_new s) x y octaves persistence scale \<le> 1"
  using perlin2D_abs [of "NoiseGenerator_new s" x y]
    octaveNoise2D_abs [OF assms, of "NoiseGenerator_new s" x y scale]
  by (simp add: abs_le_iff)

theorem noise_range_witness:
  "(1::nat) \<le> 3 \<and> (0::real) < 0.6
   \<and> - 1 \<le> perlin2D (NoiseGenerator_new 12345) 0.25 0.75 \<and> perlin2D (NoiseGenerator_new 12345) 0.25 0.75 \<le> 1
   \<and> - 1 \<le> octaveNoise2D (NoiseGenerator_new 12345) 0.25 0.75 3 0.6 1
   \<and> octaveNoise2D (NoiseGenerator_new 12345) 0.25 0.75 3 0.6 1 \<le> 1"
proof -
  have h1: "(1::nat) \<le> 3" and h2: "(0::real) < 0.6" by simp_all
  show ?thesis using h1 h2 noise_range [OF h1 h2, of 12345 "0.25" "0.75" 1] by simp
qed

text \<open>
  Claim C10. For at least one octave and a positive persistence, \<open>ridgedNoise2D\<close> and
  \<open>billow2D\<close> never return a negative value.
\<close>

theorem ridged_billow_nonneg:
  assumes "1 \<le> octaves" and "0 < persistence"
  shows "0 \<le> ridgedNoise2D (NoiseGenerator_new s) x y octaves persistence scale
       \<and> 0 \<le> billow2D (NoiseGenerator_new s) x y octaves persistence scale"
proof -
  let ?ng = "NoiseGenerator_new s"
  obtain v m where r: "ridgedNoise2D_loop ?ng x y persistence octaves 0 1 scale 0 = (v, m)"
    by (cases "ridgedNoise2D_loop ?ng x y persistence octaves 0 1 scale 0")
  obtain w k where b: "billow2D_loop ?ng x y persistence octaves 0 1 scale 0 = (w, k)"
    by (cases "billow2D_loop ?ng x y persistence octaves 0 1 scale 0")
  have "0 \<le> v \<and> 0 \<le> m"
    using ridgedNoise2D_loop_bound [of 1 persistence 0 0 ?ng x y octaves scale] assms r by simp
  moreover have "0 \<le> w \<and> 0 \<le> k"
    using billow2D_loop_bound [of 1 persistence 0 0 ?ng x y octaves scale] assms b by simp
  ultimately show ?thesis by (simp add: ridgedNoise2D_def billow2D_def r b)
qed

theorem ridged_billow_nonneg_witness:
  "(1::nat) \<le> 4 \<and> (0::real) < 0.4
   \<and> 0 \<le> ridgedNoise2D (NoiseGenerator_new 14345) 0.25 0.75 4 0.4 1
   \<and> 0 \<le> billow2D (NoiseGenerator_new 14345) 0.25 0.75 4 0.4 1"
proof -
  have h1: "(1::nat) \<le> 4" and h2: "(0::real) < 0.4" by simp_all
  show ?thesis using h1 h2 ridged_billow_nonneg [OF h1 h2, of 14345 "0.25" "0.75" 1] by simp
qed



subsection \<open>Spline\<close>

lemma Vec3_length_nonneg: "0 \<le> Vec3_length v"
  by (simp add: Vec3_length_def)

lemma Vec3_distance_nonneg: "0 \<le> Vec3_distance a b"
  by (simp add: Vec3_distance_def Vec3_length_nonneg)

lemma Vec3_distance_self: "Vec3_distance a a = 0"
  by (simp add: Vec3_distance_def Vec3_length_def Vec3_subtract_def)

lemma Vec3_normalize_zero_length: "Vec3_length d = 0 \<Longrightarrow> Vec3_normalize d = Vec3 0 0 0"
  by (simp add: Vec3_normalize_def Vec3_zero_def)

lemma getPoint_short:
  "length (points sp) < 2 \<Longrightarrow>
     getPoint sp t = Inr (case points sp of [] \<Rightarrow> Vec3 0 0 0 | p # _ \<Rightarrow> p)"
  by (cases "points sp") (simp_all add: getPoint_def at_index_def Vec3_zero_def)

lemma getTangent_short: "length (points sp) < 2 \<Longrightarrow> getTangent sp t = Inr (Vec3 0 0 1)"
  by (simp add: getTangent_def Vec3_forward_def)

lemma getTangent_zero_derivative:
  assumes "2 \<le> length (points sp)"
    and "getSegmentDerivative sp (fst (locate sp t)) (snd (locate sp t)) = Inr d"
    and "Vec3_length d = 0"
  shows "getTangent sp t = Inr (Vec3 0 0 0)"
  using assms
  by (simp add: getTangent_def getSegmentTangent_def Vec3_normalize_zero_length case_prod_beta)

text \<open>
  Claim C9, as amended. With fewer than two control points \<open>getPoint\<close> returns the only
  point (the zero vector for an empty list) and \<open>getTangent\<close> returns the forward vector
  \<open>(0, 0, 1)\<close>, neither raising an error. With two or more control points, when the
  derivative of the cubic at \<open>t\<close> has length zero, \<open>getTangent\<close> returns the zero vector
  \<open>(0, 0, 0)\<close>, which is the fallback of \<open>Vec3.normalize\<close>.
\<close>

theorem spline_fallbacks:
  "(length (points sp) < 2 \<longrightarrow>
      getPoint sp t = Inr (case points sp of [] \<Rightarrow> Vec3 0 0 0 | p # _ \<Rightarrow> p)
      \<and> getTangent sp t = Inr (Vec3 0 0 1))
   \<and> (2 \<le> length (points sp)
        \<and> getSegmentDerivative sp (fst (locate sp t)) (snd (locate sp t)) = Inr d
        \<and> Vec3_length d = 0 \<longrightarrow>
      getTangent sp t = Inr (Vec3 0 0 0))"
  using getPoint_short [of sp t] getTangent_short [of sp t] getTangent_zero_derivative [of sp t d]
  by blast

lemma control_points_pair:
  "control_points \<lparr>points = [a, b]\<rparr> 0 = Inr (a, a, b, b)"
  by (simp add: control_points_def at_index_def)

lemma locate_pair_zero: "locate \<lparr>points = [a, b]\<rparr> 0 = (0, 0)"
  by (simp add: locate_def)

theorem spline_fallbacks_witness:
  "(length (points \<lparr>points = [Vec3 1 2 3]\<rparr>) < 2
      \<and> getPoint \<lparr>points = [Vec3 1 2 3]\<rparr> (1/2) = Inr (Vec3 1 2 3)
      \<and> getTangent \<lparr>points = [Vec3 1 2 3]\<rparr> (1/2) = Inr (Vec3 0 0 1))
   \<and> (2 \<le> length (points \<lparr>points = [Vec3 5 0 5, Vec3 5 0 5]\<rparr>)
      \<and> getSegmentDerivative \<lparr>points = [Vec3 5 0 5, Vec3 5 0 5]\<rparr>
           (fst (locate \<lparr>points = [Vec3 5 0 5, Vec3 5 0 5]\<rparr> 0))
           (snd (locate \<lparr>points = [Vec3 5 0 5, Vec3 5 0 5]\<rparr> 0)) = Inr (Vec3 0 0 0)
      \<and> Vec3_length (Vec3 0 0 0) = 0
      \<and> getTangent \<lparr>points = [Vec3 5 0 5, Vec3 5 0 5]\<rparr> 0 = Inr (Vec3 0 0 0))"
proof -
  have a: "length (points \<lparr>points = [Vec3 1 2 3]\<rparr>) < 2" by simp
  have b: "2 \<le> length (points \<lparr>points = [Vec3 5 0 5, Vec3 5 0 5]\<rparr>)" by simp
  have c: "getSegmentDerivative \<lparr>points = [Vec3 5 0 5, Vec3 5 0 5]\<rparr>
           (fst (locate \<lparr>points = [Vec3 5 0 5, Vec3 5 0 5]\<rparr> 0))
           (snd (locate \<lparr>points = [Vec3 5 0 5, Vec3 5 0 5]\<rparr> 0)) = Inr (Vec3 0 0 0)"
    by (simp add: locate_pair_zero getSegmentDerivative_def control_points_pair
        catmull_derivative_def)
  have d: "Vec3_length (Vec3 0 0 0) = 0" by (simp add: Vec3_length_def)
  from spline_fallbacks [of "\<lparr>points = [Vec3 1 2 3]\<rparr>" "1/2"] a
  have "getPoint \<lparr>points = [Vec3 1 2 3]\<rparr> (1/2) = Inr (Vec3 1 2 3)
      \<and> getTangent \<lparr>points = [Vec3 1 2 3]\<rparr> (1/2) = Inr (Vec3 0 0 1)" by simp
  moreover from spline_fallbacks [of "\<lparr>points = [Vec3 5 0 5, Vec3 5 0 5]\<rparr>" 0 "Vec3 0 0 0"] b c d
  have "getTangent \<lparr>points = [Vec3 5 0 5, Vec3 5 0 5]\<rparr> 0 = Inr (Vec3 0 0 0)" by blast
  ultimately show ?thesis using a b c d by blast
qed

text \<open>
  The claim C9 as stated fails: over two equal control points the derivative at \<open>t = 0\<close>
  has length zero and \<open>getTangent\<close> does not return the forward vector.
\<close>

theorem tangent_forward_counterexample:
  "2 \<le> length (points \<lparr>points = [Vec3 5 0 5, Vec3 5 0 5]\<rparr>)
   \<and> getSegmentDerivative \<lparr>points = [Vec3 5 0 5, Vec3 5 0 5]\<rparr>
        (fst (locate \<lparr>points = [Vec3 5 0 5, Vec3 5 0 5]\<rparr> 0))
        (snd (locate \<lparr>points = [Vec3 5 0 5, Vec3 5 0 5]\<rparr> 0)) = Inr (Vec3 0 0 0)
   \<and> Vec3_length (Vec3 0 0 0) = 0
   \<and> getTangent \<lparr>points = [Vec3 5 0 5, Vec3 5 0 5]\<rparr> 0 \<noteq> Inr Vec3_forward"
  by (simp add: locate_pair_zero getSegmentDerivative_def control_points_pair
      catmull_derivative_def Vec3_length_def getTangent_def getSegmentTangent_def
      Vec3_normalize_def Vec3_zero_def Vec3_forward_def)


subsection \<open>Extending the road\<close>

lemma extendRoad_loop_continue:
  "generatedDistance < distance \<Longrightarrow>
     extendRoad_loop rs noise distance st generatedDistance =
       extendRoad_loop rs noise distance (extendRoad_body rs noise st)
         (generatedDistance + segmentLength rs)"
  by (subst extendRoad_loop.simps) simp

lemma extendRoad_loop_stop:
  "\<not> generatedDistance < distance \<Longrightarrow>
     extendRoad_loop rs noise distance st generatedDistance = Some st"
  by (subst extendRoad_loop.simps) simp

text \<open>With a positive segment length the loop ends, after
  \<open>\<lceil>(distance - generatedDistance) / segmentLength\<rceil>\<close> passes through its body.\<close>

lemma extendRoad_loop_terminates:
  assumes "0 < segmentLength rs"
  shows "n = nat \<lceil>(distance - g) / segmentLength rs\<rceil> \<Longrightarrow>
           extendRoad_loop rs noise distance st g = Some ((extendRoad_body rs noise ^^ n) st)"
proof (induction n arbitrary: st g)
  case 0
  then have "(distance - g) / segmentLength rs \<le> 0" by (simp add: ceiling_le_iff)
  then have "\<not> g < distance" using assms by (simp add: divide_le_0_iff)
  then show ?case by (simp add: extendRoad_loop_stop)
next
  case (Suc n)
  let ?L = "segmentLength rs"
  have pos: "0 < (distance - g) / ?L"
  proof (rule ccontr)
    assume "\<not> 0 < (distance - g) / ?L"
    then have "\<lceil>(distance - g) / ?L\<rceil> \<le> 0" by (simp add: ceiling_le_iff)
    with Suc.prems show False by simp
  qed
  then have lt: "g < distance" using assms by (simp add: zero_less_divide_iff)
  have "(distance - (g + ?L)) / ?L = (distance - g) / ?L - 1"
    using assms by (simp add: field_simps)
  then have "\<lceil>(distance - (g + ?L)) / ?L\<rceil> = \<lceil>(distance - g) / ?L\<rceil> - 1" by simp
  with Suc.prems have "n = nat \<lceil>(distance - (g + ?L)) / ?L\<rceil>" by simp
  from Suc.IH [OF this, of "extendRoad_body rs noise st"] lt
  show ?case by (simp add: extendRoad_loop_continue funpow_swap1)
qed

lemma rotateVector_unit:
  "(vx (rotateVector v a))\<^sup>2 + (vz (rotateVector v a))\<^sup>2 = (vx v)\<^sup>2 + (vz v)\<^sup>2"
proof -
  have g: "(p * c - q * s)\<^sup>2 + (p * s + q * c)\<^sup>2 = (p\<^sup>2 + q\<^sup>2) * (s\<^sup>2 + c\<^sup>2)"
    for p q c s :: real
    by (simp add: power2_eq_square algebra_simps)
  show ?thesis
    unfolding rotateVector_def Let_def Vec3.sel g by simp
qed

lemma road_inv_step:
  assumes "road_inv rs pth0 n st" and "pth0 \<noteq> []" and "0 \<le> segmentLength rs"
  shows "road_inv rs pth0 (Suc n) (extendRoad_body rs noise st)"
proof -
  obtain pth pos dir where st: "st = (pth, pos, dir)" by (cases st)
  from assms(1) have len: "length pth = length pth0 + n" and tk: "take (length pth0) pth = pth0"
    and lst: "last pth = pos" and unit: "(vx dir)\<^sup>2 + (vz dir)\<^sup>2 = 1"
    and seg: "\<And>i. length pth0 \<le> Suc i \<Longrightarrow> Suc i < length pth \<Longrightarrow>
               xz_distance (pth ! i) (pth ! Suc i) = segmentLength rs"
    unfolding road_inv_def st by auto
  obtain pth' pos' dir' where b: "extendRoad_body rs noise st = (pth', pos', dir')"
    by (cases "extendRoad_body rs noise st")
  define ang where "ang = octaveNoise2D noise (real (length pth) * 0.01)
      (real (length pth) * 0.01 * 0.7) 3 0.6 0.5 * curviness rs * 0.5"
  have dir': "dir' = rotateVector dir ang"
    and pth': "pth' = pth @ [pos']"
    and px: "vx pos' = vx pos + vx dir' * segmentLength rs"
    and pz: "vz pos' = vz pos + vz dir' * segmentLength rs"
    using b unfolding st extendRoad_body_def ang_def
    by (auto simp: Let_def Vec3_add_def Vec3_multiply_def)
  have unit': "(vx dir')\<^sup>2 + (vz dir')\<^sup>2 = 1"
    unfolding dir' by (simp add: rotateVector_unit unit)
  have ne: "pth \<noteq> []" using len assms(2) by auto
  have "(vx pos - vx pos')\<^sup>2 + (vz pos - vz pos')\<^sup>2
          = (segmentLength rs)\<^sup>2 * ((vx dir')\<^sup>2 + (vz dir')\<^sup>2)"
    unfolding px pz by (simp add: power2_eq_square algebra_simps)
  then have step: "xz_distance pos pos' = segmentLength rs"
    using assms(3) by (simp add: xz_distance_def unit')
  have newseg: "xz_distance (pth' ! i) (pth' ! Suc i) = segmentLength rs"
    if "length pth0 \<le> Suc i" "Suc i < length pth'" for i
  proof (cases "Suc i < length pth")
    case True
    then show ?thesis using seg [OF that(1) True] by (simp add: pth' nth_append)
  next
    case False
    then have i: "Suc i = length pth" using that(2) by (simp add: pth')
    then have "i = length pth - 1" by simp
    then have "pth' ! i = last pth" using ne by (simp add: pth' nth_append last_conv_nth)
    moreover have "pth' ! Suc i = pos'" using i by (simp add: pth')
    ultimately show ?thesis using step lst by simp
  qed
  have "length pth' = length pth0 + Suc n" using len by (simp add: pth')
  moreover have "take (length pth0) pth' = pth0" using tk len by (simp add: pth')
  moreover have "last pth' = pos'" by (simp add: pth')
  ultimately show ?thesis
    unfolding b road_inv_def using unit' newseg by simp
qed

lemma road_inv_funpow:
  assumes "road_inv rs pth0 0 st" and "pth0 \<noteq> []" and "0 \<le> segmentLength rs"
  shows "road_inv rs pth0 n ((extendRoad_body rs noise ^^ n) st)"
proof (induction n)
  case 0
  then show ?case using assms(1) by simp
next
  case (Suc n)
  then show ?case using road_inv_step [OF _ assms(2,3)] by simp
qed


subsection \<open>Nearest point on the road\<close>

lemma locate_range:
  assumes "2 \<le> length (points sp)" and "0 \<le> t"
  shows "0 \<le> fst (locate sp t) \<and> fst (locate sp t) + 1 < int (length (points sp))"
proof -
  have "0 \<le> t * (real (length (points sp)) - 1)" using assms by simp
  then have "0 \<le> \<lfloor>t * (real (length (points sp)) - 1)\<rfloor>" by simp
  then show ?thesis using assms(1) by (simp add: locate_def Let_def)
qed

lemma control_points_ok:
  assumes "0 \<le> seg" and "seg + 1 < int (length (points sp))"
  shows "\<exists>p0 p2 p3. control_points sp seg = Inr (p0, points sp ! nat seg, p2, p3)"
  using assms by (auto simp: control_points_def at_index_def Let_def min_def)

lemma getPoint_ok:
  assumes "0 \<le> t"
  shows "\<exists>p. getPoint sp t = Inr p"
proof (cases "length (points sp) < 2")
  case True
  then show ?thesis by (simp add: getPoint_def)
next
  case False
  then have "2 \<le> length (points sp)" by simp
  from locate_range [OF this assms] control_points_ok [of "fst (locate sp t)" sp]
  obtain p0 p2 p3 where
    "control_points sp (fst (locate sp t)) = Inr (p0, points sp ! nat (fst (locate sp t)), p2, p3)"
    by blast
  then show ?thesis using False
    by (simp add: getPoint_def getSegmentPoint_def case_prod_beta)
qed

lemma getTangent_ok:
  assumes "0 \<le> t"
  shows "\<exists>p. getTangent sp t = Inr p"
proof (cases "length (points sp) < 2")
  case True
  then show ?thesis by (simp add: getTangent_def)
next
  case False
  then have "2 \<le> length (points sp)" by simp
  from locate_range [OF this assms] control_points_ok [of "fst (locate sp t)" sp]
  obtain p0 p2 p3 where
    "control_points sp (fst (locate sp t)) = Inr (p0, points sp ! nat (fst (locate sp t)), p2, p3)"
    by blast
  then show ?thesis using False
    by (simp add: getTangent_def getSegmentTangent_def getSegmentDerivative_def case_prod_beta)
qed

lemma catmull_at_zero: "catmull a b c d 0 = b"
  by (simp add: catmull_def)

text \<open>At \<open>t = 0\<close> the curve is at the first control point.\<close>

lemma getPoint_start:
  assumes "points sp \<noteq> []"
  shows "getPoint sp 0 = Inr (points sp ! 0)"
proof (cases "length (points sp) < 2")
  case True
  then show ?thesis using assms by (simp add: getPoint_def at_index_def)
next
  case False
  then have two: "2 \<le> length (points sp)" by simp
  have loc: "locate sp 0 = (0, 0)" using two by (simp add: locate_def)
  from control_points_ok [of 0 sp] two
  obtain p0 p2 p3 where "control_points sp 0 = Inr (p0, points sp ! 0, p2, p3)" by auto
  then show ?thesis using False
    by (simp add: getPoint_def loc getSegmentPoint_def catmull_at_zero)
qed

text \<open>Once the closest distance found is a lower bound of the distance to every curve
  point, neither search loop moves off it.\<close>

lemma sample_at_keep:
  assumes "0 \<le> t" and "\<forall>u\<ge>0. \<forall>p. getPoint sp u = Inr p \<longrightarrow> d0 \<le> Vec3_distance w p"
  shows "sample_at sp w t (t0, Finite d0) = Inr (t0, Finite d0)"
proof -
  obtain p where p: "getPoint sp t = Inr p" using getPoint_ok [OF assms(1)] by blast
  with assms have "d0 \<le> Vec3_distance w p" by blast
  then show ?thesis by (simp add: sample_at_def p Let_def)
qed

lemma coarse_search_keep:
  assumes "\<forall>u\<ge>0. \<forall>p. getPoint sp u = Inr p \<longrightarrow> d0 \<le> Vec3_distance w p"
  shows "coarse_search sp w js (t0, Finite d0) = Inr (t0, Finite d0)"
  by (induction js) (simp_all add: sample_at_keep [OF _ assms])

lemma refine_search_keep:
  assumes "\<forall>u\<ge>0. \<forall>p. getPoint sp u = Inr p \<longrightarrow> d0 \<le> Vec3_distance w p"
  shows "refine_search sp w js (t0, Finite d0) = Inr (t0, Finite d0)"
  by (induction js) (simp_all add: sample_at_keep [OF _ assms] Let_def)

lemma getRoadInfo_at_start:
  assumes "spline rs = Some sp" and "getPoint sp 0 = Inr p0" and "getTangent sp 0 = Inr dir0"
    and "\<forall>u\<ge>0. \<forall>p. getPoint sp u = Inr p \<longrightarrow> Vec3_distance w p0 \<le> Vec3_distance w p"
  shows "getRoadInfo rs w =
           Inr (Some \<lparr>info_position = p0, info_direction = dir0,
                      info_distance = Finite (Vec3_distance w p0), info_t = 0\<rparr>)"
proof -
  have "[0..<101] = 0 # [1..<101]" by (simp add: upt_conv_Cons)
  then have "coarse_search sp w [0..<101] (0, Infinity)
             = coarse_search sp w [1..<101] (0, Finite (Vec3_distance w p0))"
    by (simp add: sample_at_def assms(2) Let_def)
  also have "\<dots> = Inr (0, Finite (Vec3_distance w p0))"
    by (rule coarse_search_keep [OF assms(4)])
  finally have c: "coarse_search sp w [0..<101] (0, Infinity) = Inr (0, Finite (Vec3_distance w p0))" .
  have r: "refine_search sp w [-10..10] (0, Finite (Vec3_distance w p0))
           = Inr (0, Finite (Vec3_distance w p0))"
    by (rule refine_search_keep [OF assms(4)])
  show ?thesis
    unfolding getRoadInfo_def assms(1) option.case c sum.case r
    by (simp add: assms(2,3))
qed

text \<open>
  Claim C7. From a path that holds only the waypoint \<open>(0,0,0)\<close>, heading \<open>+Z\<close>, with segment
  length 50, \<open>extendRoad(500)\<close> returns, appends exactly ten waypoints, each lying exactly
  50 from its predecessor in the XZ projection, and afterwards \<open>getRoadInfo((0,0,0))\<close>
  returns \<open>t = 0\<close> and \<open>distance = 0\<close>. (Numbers are reals here.)
\<close>

theorem extendRoad_scenario:
  assumes "path rs = [Vec3 0 0 0]" and "lastGeneratedPosition rs = Vec3 0 0 0"
    and "currentDirection rs = Vec3 0 0 1" and "segmentLength rs = 50"
  shows "\<exists>rs'. extendRoad rs 500 = Some rs'
           \<and> length (path rs') = length (path rs) + 10
           \<and> take (length (path rs)) (path rs') = path rs
           \<and> (\<forall>i<10. xz_distance (path rs' ! i) (path rs' ! Suc i) = 50)
           \<and> (\<exists>info. getRoadInfo rs' (Vec3 0 0 0) = Inr (Some info)
                 \<and> info_t info = 0 \<and> info_distance info = Finite 0
                 \<and> info_position info = Vec3 0 0 0)"
proof -
  let ?noise = "NoiseGenerator_new (roadSeed rs)"
  let ?init = "(path rs, lastGeneratedPosition rs, currentDirection rs)"
  let ?final = "(extendRoad_body rs ?noise ^^ 10) ?init"
  have pos: "0 < segmentLength rs" using assms(4) by simp
  have "(10::nat) = nat \<lceil>(500 - 0) / segmentLength rs\<rceil>" using assms(4) by simp
  from extendRoad_loop_terminates [OF pos this, where noise = ?noise and st = ?init]
  have loop: "extendRoad_loop rs ?noise 500 ?init 0 = Some ?final" .
  have inv0: "road_inv rs (path rs) 0 ?init"
    using assms by (simp add: road_inv_def)
  have "road_inv rs (path rs) 10 ?final"
    by (rule road_inv_funpow [OF inv0]) (use assms in simp_all)
  moreover obtain pth p d where st: "?final = (pth, p, d)" by (cases ?final)
  ultimately have len: "length pth = length (path rs) + 10"
    and tk: "take (length (path rs)) pth = path rs"
    and seg: "\<And>i. length (path rs) \<le> Suc i \<Longrightarrow> Suc i < length pth \<Longrightarrow>
                xz_distance (pth ! i) (pth ! Suc i) = segmentLength rs"
    unfolding road_inv_def by auto
  define rs' where "rs' = updateSpline
      (rs\<lparr>path := pth, lastGeneratedPosition := p, currentDirection := d\<rparr>)"
  have ext: "extendRoad rs 500 = Some rs'"
    unfolding extendRoad_def Let_def loop st rs'_def by simp
  have pth': "path rs' = pth" and sp: "spline rs' = Some \<lparr>points = pth\<rparr>"
    unfolding rs'_def updateSpline_def by simp_all
  have segs: "\<forall>i<10. xz_distance (pth ! i) (pth ! Suc i) = 50"
    using seg len assms(1,4) by simp
  have "pth ! 0 = take (length (path rs)) pth ! 0" using assms(1) by simp
  then have first: "pth ! 0 = Vec3 0 0 0" unfolding tk using assms(1) by simp
  have ne: "points \<lparr>points = pth\<rparr> \<noteq> []" using len by auto
  have start: "getPoint \<lparr>points = pth\<rparr> 0 = Inr (Vec3 0 0 0)"
    using getPoint_start [OF ne] first by simp
  obtain dir0 where tan: "getTangent \<lparr>points = pth\<rparr> 0 = Inr dir0"
    using getTangent_ok [of 0 "\<lparr>points = pth\<rparr>"] by auto
  have low: "\<forall>u\<ge>0. \<forall>q. getPoint \<lparr>points = pth\<rparr> u = Inr q \<longrightarrow>
      Vec3_distance (Vec3 0 0 0) (Vec3 0 0 0) \<le> Vec3_distance (Vec3 0 0 0) q"
    by (simp add: Vec3_distance_self Vec3_distance_nonneg)
  from getRoadInfo_at_start [OF sp start tan low]
  have info: "getRoadInfo rs' (Vec3 0 0 0) =
      Inr (Some \<lparr>info_position = Vec3 0 0 0, info_direction = dir0,
                 info_distance = Finite 0, info_t = 0\<rparr>)"
    by (simp add: Vec3_distance_self)
  show ?thesis
    using ext len tk segs info unfolding pth' [symmetric] by auto
qed


theorem extendRoad_scenario_witness:
  "path ((RoadSystem_fields (\<lambda>x z. 0))\<lparr>path := [Vec3 0 0 0], lastGeneratedPosition := Vec3 0 0 0\<rparr>)
     = [Vec3 0 0 0]
   \<and> lastGeneratedPosition
       ((RoadSystem_fields (\<lambda>x z. 0))\<lparr>path := [Vec3 0 0 0], lastGeneratedPosition := Vec3 0 0 0\<rparr>)
     = Vec3 0 0 0
   \<and> currentDirection
       ((RoadSystem_fields (\<lambda>x z. 0))\<lparr>path := [Vec3 0 0 0], lastGeneratedPosition := Vec3 0 0 0\<rparr>)
     = Vec3 0 0 1
   \<and> segmentLength
       ((RoadSystem_fields (\<lambda>x z. 0))\<lparr>path := [Vec3 0 0 0], lastGeneratedPosition := Vec3 0 0 0\<rparr>)
     = 50
   \<and> (\<exists>rs'. extendRoad
          ((RoadSystem_fields (\<lambda>x z. 0))\<lparr>path := [Vec3 0 0 0], lastGeneratedPosition := Vec3 0 0 0\<rparr>)
          500 = Some rs'
        \<and> length (path rs') = 11
        \<and> ((3::nat) < 10 \<and> xz_distance (path rs' ! 3) (path rs' ! 4) = 50)
        \<and> (\<exists>info. getRoadInfo rs' (Vec3 0 0 0) = Inr (Some info)
              \<and> info_t info = 0 \<and> info_distance info = Finite 0))"
proof -
  let ?R = "(RoadSystem_fields (\<lambda>x z. 0))\<lparr>path := [Vec3 0 0 0], lastGeneratedPosition := Vec3 0 0 0\<rparr>"
  have h: "path ?R = [Vec3 0 0 0]" "lastGeneratedPosition ?R = Vec3 0 0 0"
    "currentDirection ?R = Vec3 0 0 1" "segmentLength ?R = 50"
    by (simp_all add: RoadSystem_fields_def)
  from extendRoad_scenario [OF h]
  obtain rs' where r: "extendRoad ?R 500 = Some rs'"
    "length (path rs') = length (path ?R) + 10"
    "\<forall>i<10. xz_distance (path rs' ! i) (path rs' ! Suc i) = 50"
    "\<exists>info. getRoadInfo rs' (Vec3 0 0 0) = Inr (Some info)
        \<and> info_t info = 0 \<and> info_distance info = Finite 0 \<and> info_position info = Vec3 0 0 0"
    by blast
  have "(3::nat) < 10" by simp
  with r(3) have "xz_distance (path rs' ! 3) (path rs' ! Suc 3) = 50" by blast
  moreover have "Suc 3 = 4" by simp
  ultimately have "xz_distance (path rs' ! 3) (path rs' ! 4) = 50" by simp
  moreover have "length (path rs') = 11" using r(2) h(1) by simp
  ultimately show ?thesis using h r(1,4) by auto
qed

subsection \<open>The on-road test\<close>










subsection \<open>The chunk registry\<close>

lemma map_of_map_set: "map_of (map_set k v es) k' = (if k' = k then Some v else map_of es k')"
  by (induction es) auto

lemma map_of_map_delete: "map_of (map_delete k es) k' = (if k' = k then None else map_of es k')"
  by (induction es) (auto simp: map_delete_def)

lemma set_map_set: "set (map_set k v es) \<subseteq> insert (k, v) (set es)"
  by (induction es) auto

lemma set_map_delete: "set (map_delete k es) \<subseteq> set es"
  by (auto simp: map_delete_def)

lemma set_set_add: "set (set_add k ks) = insert k (set ks)"
  by (auto simp: set_add_def)

lemma set_set_delete: "set (set_delete k ks) = set ks - {k}"
  by (auto simp: set_delete_def)

lemma registry_ok_iff:
  "registry_ok ts \<longleftrightarrow>
     (\<forall>k \<in> set (loadedChunks ts). map_of (chunks ts) k \<noteq> None)
     \<and> (\<forall>e \<in> set (chunks ts). bounds (snd e) \<noteq> None)"
  by (simp add: registry_ok_def list_all_iff)

text \<open>What \<open>unloadChunk\<close> leaves alone, and what it does to the registry.\<close>

lemma unloadChunk_frame:
  "biomeNoise (unloadChunk ts k) = biomeNoise ts"
  "settings (unloadChunk ts k) = settings ts"
  "renderDistance (unloadChunk ts k) = renderDistance ts"
  "chunkWorldSize (unloadChunk ts k) = chunkWorldSize ts"
  "lodLevels (unloadChunk ts k) = lodLevels ts"
  "chunkSize (unloadChunk ts k) = chunkSize ts"
  by (simp_all add: unloadChunk_def returnChunkToPool_def Let_def split: option.splits)

lemma unloadChunk_loaded:
  "loadedChunks (unloadChunk ts k) =
     (if map_of (chunks ts) k = None then loadedChunks ts else set_delete k (loadedChunks ts))"
  by (simp add: unloadChunk_def returnChunkToPool_def Let_def split: option.splits)

lemma unloadChunk_chunks:
  "chunks (unloadChunk ts k) = map_delete k (chunks ts)"
proof (cases "map_of (chunks ts) k")
  case None
  then have "\<forall>e \<in> set (chunks ts). fst e \<noteq> k"
    by (metis map_of_eq_None_iff image_eqI)
  then have "map_delete k (chunks ts) = chunks ts" by (simp add: map_delete_def)
  then show ?thesis using None by (simp add: unloadChunk_def)
next
  case (Some c)
  then show ?thesis by (simp add: unloadChunk_def returnChunkToPool_def Let_def)
qed

lemma unloadChunk_registry_ok:
  assumes "registry_ok ts"
  shows "registry_ok (unloadChunk ts k)"
  using assms set_map_delete [of k "chunks ts"]
  unfolding registry_ok_iff unloadChunk_chunks unloadChunk_loaded
  by (auto simp: map_of_map_delete set_set_delete)

text \<open>The same for \<open>generateChunk\<close>.\<close>

lemma generateChunk_loaded_key:
  "getChunkKey x z \<in> set (loadedChunks ts) \<Longrightarrow> snd (generateChunk ts x z l) = ts"
  by (simp add: generateChunk_def)

lemma getChunkFromPool_frame:
  "biomeNoise (snd (getChunkFromPool ts)) = biomeNoise ts"
  "settings (snd (getChunkFromPool ts)) = settings ts"
  "renderDistance (snd (getChunkFromPool ts)) = renderDistance ts"
  "chunkWorldSize (snd (getChunkFromPool ts)) = chunkWorldSize ts"
  "lodLevels (snd (getChunkFromPool ts)) = lodLevels ts"
  "chunkSize (snd (getChunkFromPool ts)) = chunkSize ts"
  "chunks (snd (getChunkFromPool ts)) = chunks ts"
  "loadedChunks (snd (getChunkFromPool ts)) = loadedChunks ts"
  by (simp_all add: getChunkFromPool_def)

lemma generateChunk_frame:
  "biomeNoise (snd (generateChunk ts x z l)) = biomeNoise ts"
  "settings (snd (generateChunk ts x z l)) = settings ts"
  "renderDistance (snd (generateChunk ts x z l)) = renderDistance ts"
  "chunkWorldSize (snd (generateChunk ts x z l)) = chunkWorldSize ts"
  "lodLevels (snd (generateChunk ts x z l)) = lodLevels ts"
  "chunkSize (snd (generateChunk ts x z l)) = chunkSize ts"
  by (simp_all add: generateChunk_def createChunkBuffers_def Let_def case_prod_beta
      getChunkFromPool_frame)

lemma generateChunk_loaded:
  "set (loadedChunks (snd (generateChunk ts x z l))) = insert (x, z) (set (loadedChunks ts))"
  by (auto simp: generateChunk_def createChunkBuffers_def Let_def case_prod_beta
      getChunkFromPool_frame set_set_add getChunkKey_def)

lemma generateChunk_chunks:
  "(x, z) \<notin> set (loadedChunks ts) \<Longrightarrow>
     chunks (snd (generateChunk ts x z l)) = map_set (x, z) (built_chunk ts x z l) (chunks ts)"
  by (simp add: generateChunk_def built_chunk_def createChunkBuffers_def Let_def case_prod_beta
      getChunkFromPool_frame getChunkKey_def)

lemma built_chunk_fields:
  assumes "(x, z) \<notin> set (loadedChunks ts)"
  shows "lod (built_chunk ts x z l) = l" and "bounds (built_chunk ts x z l) \<noteq> None"
    and "chunk_key (built_chunk ts x z l) = Some (x, z)"
  using assms
  by (simp_all add: generateChunk_def built_chunk_def createChunkBuffers_def Let_def
      case_prod_beta generateChunkGeometry_def getChunkKey_def)

lemma generateChunk_registry_ok:
  assumes "registry_ok ts"
  shows "registry_ok (snd (generateChunk ts x z l))"
proof (cases "(x, z) \<in> set (loadedChunks ts)")
  case True
  then show ?thesis using assms by (simp add: generateChunk_loaded_key getChunkKey_def)
next
  case False
  have "\<forall>e \<in> set (map_set (x, z) (built_chunk ts x z l) (chunks ts)). bounds (snd e) \<noteq> None"
    using set_map_set [of "(x, z)" "built_chunk ts x z l" "chunks ts"] assms
      built_chunk_fields(2) [OF False, of l]
    unfolding registry_ok_iff by auto
  then show ?thesis
    using assms unfolding registry_ok_iff generateChunk_loaded generateChunk_chunks [OF False]
    by (auto simp: map_of_map_set)
qed


subsection \<open>The loops of update\<close>

lemma unload_fold_frame:
  "biomeNoise (fold (\<lambda>key ts1. if P key then unloadChunk ts1 key else ts1) ks ts) = biomeNoise ts
   \<and> settings (fold (\<lambda>key ts1. if P key then unloadChunk ts1 key else ts1) ks ts) = settings ts
   \<and> renderDistance (fold (\<lambda>key ts1. if P key then unloadChunk ts1 key else ts1) ks ts)
       = renderDistance ts
   \<and> chunkWorldSize (fold (\<lambda>key ts1. if P key then unloadChunk ts1 key else ts1) ks ts)
       = chunkWorldSize ts
   \<and> lodLevels (fold (\<lambda>key ts1. if P key then unloadChunk ts1 key else ts1) ks ts) = lodLevels ts
   \<and> chunkSize (fold (\<lambda>key ts1. if P key then unloadChunk ts1 key else ts1) ks ts) = chunkSize ts"
  by (induction ks arbitrary: ts) (simp_all add: unloadChunk_frame)

lemma unload_fold_registry_ok:
  "registry_ok ts \<Longrightarrow>
     registry_ok (fold (\<lambda>key ts1. if P key then unloadChunk ts1 key else ts1) ks ts)"
  by (induction ks arbitrary: ts) (simp_all add: unloadChunk_registry_ok)

lemma unload_fold_chunks:
  "map_of (chunks (fold (\<lambda>key ts1. if P key then unloadChunk ts1 key else ts1) ks ts)) k
     = (if k \<in> set ks \<and> P k then None else map_of (chunks ts) k)"
  by (induction ks arbitrary: ts) (auto simp: unloadChunk_chunks map_of_map_delete)

lemma unload_fold_loaded_subset:
  "set (loadedChunks (fold (\<lambda>key ts1. if P key then unloadChunk ts1 key else ts1) ks ts))
     \<subseteq> set (loadedChunks ts)"
proof (induction ks arbitrary: ts)
  case Nil
  then show ?case by simp
next
  case (Cons a ks)
  have "set (loadedChunks (unloadChunk ts a)) \<subseteq> set (loadedChunks ts)"
    by (auto simp: unloadChunk_loaded set_set_delete)
  with Cons [of "unloadChunk ts a"] Cons [of ts] show ?case by auto
qed

lemma unload_fold_loaded_keeps:
  "k \<in> set (loadedChunks ts) \<Longrightarrow> \<not> P k \<Longrightarrow>
     k \<in> set (loadedChunks (fold (\<lambda>key ts1. if P key then unloadChunk ts1 key else ts1) ks ts))"
proof (induction ks arbitrary: ts)
  case Nil
  then show ?case by simp
next
  case (Cons a ks)
  have "k \<in> set (loadedChunks (unloadChunk ts a))" if "P a"
    using Cons.prems that by (auto simp: unloadChunk_loaded set_set_delete)
  with Cons show ?case by auto
qed

lemma unload_fold_loaded_drops:
  assumes "registry_ok ts" and "k \<in> set ks" and "P k"
  shows "k \<notin> set (loadedChunks (fold (\<lambda>key ts1. if P key then unloadChunk ts1 key else ts1) ks ts))"
proof -
  let ?r = "fold (\<lambda>key ts1. if P key then unloadChunk ts1 key else ts1) ks ts"
  have "registry_ok ?r" by (rule unload_fold_registry_ok [OF assms(1)])
  moreover have "map_of (chunks ?r) k = None" using assms(2,3) by (simp add: unload_fold_chunks)
  ultimately show ?thesis unfolding registry_ok_iff by blast
qed

text \<open>After \<open>unloadDistantChunks\<close> the loaded keys are the formerly loaded keys that are
  required.\<close>

lemma unloadDistantChunks_loaded:
  assumes "registry_ok ts"
  shows "set (loadedChunks (unloadDistantChunks ts cam req))
           = set (loadedChunks ts) \<inter> (\<lambda>c. (req_x c, req_z c)) ` set req"
proof -
  let ?K = "map (\<lambda>c. getChunkKey (req_x c) (req_z c)) req"
  let ?r = "fold (\<lambda>key ts1. if key \<notin> set ?K then unloadChunk ts1 key else ts1) (loadedChunks ts) ts"
  have K: "set ?K = (\<lambda>c. (req_x c, req_z c)) ` set req" by (auto simp: getChunkKey_def)
  have r: "unloadDistantChunks ts cam req = ?r" by (simp add: unloadDistantChunks_def Let_def)
  have "set (loadedChunks ?r) = set (loadedChunks ts) \<inter> set ?K"
  proof (intro equalityI subsetI)
    fix k assume k: "k \<in> set (loadedChunks ?r)"
    then have l: "k \<in> set (loadedChunks ts)"
      using unload_fold_loaded_subset [where P = "\<lambda>key. key \<notin> set ?K"] by blast
    have "k \<in> set ?K"
    proof (rule ccontr)
      assume "k \<notin> set ?K"
      from unload_fold_loaded_drops [where P = "\<lambda>key. key \<notin> set ?K", OF assms l this] k
      show False by blast
    qed
    with l show "k \<in> set (loadedChunks ts) \<inter> set ?K" by blast
  next
    fix k assume "k \<in> set (loadedChunks ts) \<inter> set ?K"
    then show "k \<in> set (loadedChunks ?r)"
      using unload_fold_loaded_keeps [where P = "\<lambda>key. key \<notin> set ?K"] by blast
  qed
  then show ?thesis unfolding r K .
qed

lemma unloadDistantChunks_props:
  "biomeNoise (unloadDistantChunks ts cam req) = biomeNoise ts"
  "settings (unloadDistantChunks ts cam req) = settings ts"
  "renderDistance (unloadDistantChunks ts cam req) = renderDistance ts"
  "chunkWorldSize (unloadDistantChunks ts cam req) = chunkWorldSize ts"
  "lodLevels (unloadDistantChunks ts cam req) = lodLevels ts"
  "chunkSize (unloadDistantChunks ts cam req) = chunkSize ts"
  "registry_ok ts \<Longrightarrow> registry_ok (unloadDistantChunks ts cam req)"
  "k \<in> (\<lambda>c. (req_x c, req_z c)) ` set req \<Longrightarrow>
     map_of (chunks (unloadDistantChunks ts cam req)) k = map_of (chunks ts) k"
  using unload_fold_frame [of "\<lambda>key. key \<notin> set (map (\<lambda>c. getChunkKey (req_x c) (req_z c)) req)"
      "loadedChunks ts" ts]
     unload_fold_registry_ok [of ts "\<lambda>key. key \<notin> set (map (\<lambda>c. getChunkKey (req_x c) (req_z c)) req)"
      "loadedChunks ts"]
     unload_fold_chunks [of "\<lambda>key. key \<notin> set (map (\<lambda>c. getChunkKey (req_x c) (req_z c)) req)"
      "loadedChunks ts" ts k]
  by (auto simp: unloadDistantChunks_def Let_def getChunkKey_def)

text \<open>The generation loop of \<open>update\<close>.\<close>

lemma generate_step_eq:
  "generate_step c ts = snd (generateChunk ts (req_x c) (req_z c) (req_lod c))"
  by (simp add: generate_step_def Let_def generateChunk_loaded_key)


lemma generate_fold_frame:
  "biomeNoise (fold generate_step cs ts) = biomeNoise ts
   \<and> settings (fold generate_step cs ts) = settings ts
   \<and> renderDistance (fold generate_step cs ts) = renderDistance ts
   \<and> chunkWorldSize (fold generate_step cs ts) = chunkWorldSize ts
   \<and> lodLevels (fold generate_step cs ts) = lodLevels ts
   \<and> chunkSize (fold generate_step cs ts) = chunkSize ts"
  by (induction cs arbitrary: ts) (simp_all add: generate_step_eq generateChunk_frame)

lemma generate_fold_registry_ok:
  "registry_ok ts \<Longrightarrow> registry_ok (fold generate_step cs ts)"
  by (induction cs arbitrary: ts) (simp_all add: generate_step_eq generateChunk_registry_ok)

lemma generate_fold_loaded:
  "set (loadedChunks (fold generate_step cs ts))
     = set (loadedChunks ts) \<union> (\<lambda>c. (req_x c, req_z c)) ` set cs"
  by (induction cs arbitrary: ts) (auto simp: generate_step_eq generateChunk_loaded)




subsection \<open>Visibility\<close>

lemma chunk_visibility_ok:
  "bounds chunk \<noteq> None \<Longrightarrow> \<exists>v. chunk_visibility ts cam planes chunk = Inr v"
  by (auto simp: chunk_visibility_def Let_def)

text \<open>When no chunk lacks its bounding box the loop ends normally; it rewrites only the
  \<open>visible\<close> field of the chunks and keeps their order.\<close>

lemma visibility_loop_ok:
  assumes "\<forall>e \<in> set rest. bounds (snd e) \<noteq> None"
  shows "\<exists>cs vis' tris'. visibility_loop ts cam planes rest (acc, vis, tris) = Inr (cs, vis', tris')"
  using assms
proof (induction rest arbitrary: acc vis tris)
  case Nil
  then show ?case by simp
next
  case (Cons e rest)
  obtain key chunk where e: "e = (key, chunk)" by (cases e)
  obtain v where v: "chunk_visibility ts cam planes chunk = Inr v"
    using chunk_visibility_ok [of chunk ts cam planes] Cons.prems e by auto
  show ?case using Cons.IH Cons.prems by (simp add: e v)
qed

lemma visibility_loop_result:
  assumes "visibility_loop ts cam planes rest (acc, vis, tris) = Inr (cs, vis', tris')"
  shows "cs = acc @ map (\<lambda>e. (fst e, (snd e)\<lparr>visible :=
                 projr (chunk_visibility ts cam planes (snd e))\<rparr>)) rest"
  using assms
proof (induction rest arbitrary: acc vis tris)
  case Nil
  then show ?case by simp
next
  case (Cons e rest)
  obtain key chunk where e: "e = (key, chunk)" by (cases e)
  from Cons.prems obtain v where v: "chunk_visibility ts cam planes chunk = Inr v"
    and rec: "visibility_loop ts cam planes rest
         (acc @ [(key, chunk\<lparr>visible := v\<rparr>)], if v then set_add key vis else vis,
          if v then tris + triangleCount chunk else tris) = Inr (cs, vis', tris')"
    by (auto simp: e split: sum.splits)
  from Cons.IH [OF rec] show ?case by (simp add: e v)
qed

lemma map_of_revisible:
  "map_of (map (\<lambda>e. (fst e, (snd e)\<lparr>visible := f (snd e)\<rparr>)) es) k
     = map_option (\<lambda>c. c\<lparr>visible := f c\<rparr>) (map_of es k)"
  by (induction es) auto

lemma updateVisibility_props:
  assumes "updateVisibility ts cam planes = Inr ts'"
  shows "loadedChunks ts' = loadedChunks ts"
    and "biomeNoise ts' = biomeNoise ts" and "settings ts' = settings ts"
    and "renderDistance ts' = renderDistance ts" and "chunkWorldSize ts' = chunkWorldSize ts"
    and "lodLevels ts' = lodLevels ts" and "chunkSize ts' = chunkSize ts"
    and "map_option lod (map_of (chunks ts') k) = map_option lod (map_of (chunks ts) k)"
    and "map_option bounds (map_of (chunks ts') k) = map_option bounds (map_of (chunks ts) k)"
proof -
  from assms obtain cs vis tris where
    l: "visibility_loop ts cam planes (chunks ts) ([], [], 0) = Inr (cs, vis, tris)"
    and t: "ts' = ts\<lparr>chunks := cs, visibleChunks := vis,
                     stats := (stats ts)\<lparr>trianglesRendered := tris\<rparr>\<rparr>"
    by (auto simp: updateVisibility_def split: sum.splits)
  have cs: "cs = map (\<lambda>e. (fst e, (snd e)\<lparr>visible :=
                 projr (chunk_visibility ts cam planes (snd e))\<rparr>)) (chunks ts)"
    using visibility_loop_result [OF l] by simp
  show "loadedChunks ts' = loadedChunks ts"
    and "biomeNoise ts' = biomeNoise ts" and "settings ts' = settings ts"
    and "renderDistance ts' = renderDistance ts" and "chunkWorldSize ts' = chunkWorldSize ts"
    and "lodLevels ts' = lodLevels ts" and "chunkSize ts' = chunkSize ts"
    by (simp_all add: t)
  have c: "chunks ts' = cs" by (simp add: t)
  note m = map_of_revisible [where f = "\<lambda>c. projr (chunk_visibility ts cam planes c)"
      and es = "chunks ts" and k = k]
  show "map_option lod (map_of (chunks ts') k) = map_option lod (map_of (chunks ts) k)"
    unfolding c cs m by (cases "map_of (chunks ts) k") simp_all
  show "map_option bounds (map_of (chunks ts') k) = map_option bounds (map_of (chunks ts) k)"
    unfolding c cs m by (cases "map_of (chunks ts) k") simp_all
qed

lemma updateVisibility_ok:
  assumes "registry_ok ts"
  shows "\<exists>ts'. updateVisibility ts cam planes = Inr ts'"
proof -
  have "\<forall>e \<in> set (chunks ts). bounds (snd e) \<noteq> None"
    using assms unfolding registry_ok_iff by blast
  from visibility_loop_ok [OF this, of ts cam planes "[]" "[]" 0]
  show ?thesis by (auto simp: updateVisibility_def)
qed

lemma updateVisibility_registry_ok:
  assumes "updateVisibility ts cam planes = Inr ts'" and "registry_ok ts"
  shows "registry_ok ts'"
proof -
  have a: "map_of (chunks ts') k \<noteq> None" if "k \<in> set (loadedChunks ts')" for k
  proof -
    have "map_of (chunks ts) k \<noteq> None"
      using that assms(2) updateVisibility_props(1) [OF assms(1)]
      unfolding registry_ok_iff by simp
    then show ?thesis using updateVisibility_props(8) [OF assms(1), of k]
      by (cases "map_of (chunks ts') k") auto
  qed
  have b: "bounds (snd e) \<noteq> None" if "e \<in> set (chunks ts')" for e
  proof -
    from assms(1) obtain cs vis tris where
      l: "visibility_loop ts cam planes (chunks ts) ([], [], 0) = Inr (cs, vis, tris)"
      and t: "chunks ts' = cs"
      by (auto simp: updateVisibility_def split: sum.splits)
    have "cs = map (\<lambda>e. (fst e, (snd e)\<lparr>visible :=
                 projr (chunk_visibility ts cam planes (snd e))\<rparr>)) (chunks ts)"
      using visibility_loop_result [OF l] by simp
    with that t obtain e0 where "e0 \<in> set (chunks ts)"
      and "e = (fst e0, (snd e0)\<lparr>visible := projr (chunk_visibility ts cam planes (snd e0))\<rparr>)"
      by auto
    then show ?thesis using assms(2) unfolding registry_ok_iff by auto
  qed
  show ?thesis unfolding registry_ok_iff using a b by blast
qed

subsection \<open>update\<close>

text \<open>The state of \<open>update\<close> after its unload and generate loops.\<close>

lemma update_split:
  "update ts cam planes =
     (case updateVisibility
             (fold generate_step (getRequiredChunks ts cam)
                (unloadDistantChunks ts cam (getRequiredChunks ts cam))) cam planes of
        Inl e \<Rightarrow> Inl e
      | Inr ts3 \<Rightarrow> Inr (ts3\<lparr>stats := (stats ts3)\<lparr>chunksVisible := length (visibleChunks ts3)\<rparr>\<rparr>))"
  by (simp add: update_def Let_def)

lemma update_ok:
  assumes "registry_ok ts"
  shows "\<exists>ts'. update ts cam planes = Inr ts'"
proof -
  let ?req = "getRequiredChunks ts cam"
  have "registry_ok (fold generate_step ?req (unloadDistantChunks ts cam ?req))"
    by (intro generate_fold_registry_ok unloadDistantChunks_props(7) assms)
  from updateVisibility_ok [OF this, of cam planes]
  show ?thesis unfolding update_split by auto
qed

lemma update_props:
  assumes "update ts cam planes = Inr ts'"
  shows "biomeNoise ts' = biomeNoise ts" and "settings ts' = settings ts"
    and "renderDistance ts' = renderDistance ts" and "chunkWorldSize ts' = chunkWorldSize ts"
    and "lodLevels ts' = lodLevels ts" and "chunkSize ts' = chunkSize ts"
    and "registry_ok ts \<Longrightarrow> registry_ok ts'"
    and "registry_ok ts \<Longrightarrow>
           set (loadedChunks ts') = (\<lambda>c. (req_x c, req_z c)) ` set (getRequiredChunks ts cam)"
    and "set (loadedChunks ts')
           \<subseteq> set (loadedChunks ts) \<union> (\<lambda>c. (req_x c, req_z c)) ` set (getRequiredChunks ts cam)"
proof -
  let ?req = "getRequiredChunks ts cam"
  let ?t1 = "unloadDistantChunks ts cam ?req"
  let ?t2 = "fold generate_step ?req ?t1"
  from assms obtain t3 where v: "updateVisibility ?t2 cam planes = Inr t3"
    and t: "ts' = t3\<lparr>stats := (stats t3)\<lparr>chunksVisible := length (visibleChunks t3)\<rparr>\<rparr>"
    unfolding update_split by (auto split: sum.splits)
  note p = updateVisibility_props [OF v]
  note g = generate_fold_frame [of ?req ?t1]
  note u = unloadDistantChunks_props(1-6) [where ts = ts and cam = cam and req = ?req]
  show "biomeNoise ts' = biomeNoise ts" and "settings ts' = settings ts"
    and "renderDistance ts' = renderDistance ts" and "chunkWorldSize ts' = chunkWorldSize ts"
    and "lodLevels ts' = lodLevels ts" and "chunkSize ts' = chunkSize ts"
    using p g u by (simp_all add: t)
  have l: "set (loadedChunks ts') = set (loadedChunks ?t1) \<union> (\<lambda>c. (req_x c, req_z c)) ` set ?req"
    using p(1) by (simp add: t generate_fold_loaded)
  show "registry_ok ts \<Longrightarrow> set (loadedChunks ts') = (\<lambda>c. (req_x c, req_z c)) ` set ?req"
    unfolding l by (auto simp: unloadDistantChunks_loaded)
  have "set (loadedChunks ?t1) \<subseteq> set (loadedChunks ts)"
    unfolding unloadDistantChunks_def Let_def by (rule unload_fold_loaded_subset)
  then show "set (loadedChunks ts')
           \<subseteq> set (loadedChunks ts) \<union> (\<lambda>c. (req_x c, req_z c)) ` set ?req"
    unfolding l by auto
  show "registry_ok ts'" if "registry_ok ts"
  proof -
    have "registry_ok ?t2"
      by (intro generate_fold_registry_ok unloadDistantChunks_props(7) that)
    from updateVisibility_registry_ok [OF v this]
    show ?thesis by (simp add: t registry_ok_def)
  qed
qed


subsection \<open>The required chunks\<close>









subsection \<open>The constructor\<close>

lemma generate_row_Cons:
  "generate_row l (z # zs) x ts = generate_row l zs x (snd (generateChunk ts (of_int x) (of_int z) l))"
  by (simp add: generate_row_def)

lemma generate_grid_Cons:
  "generate_grid l (x # xs) zs ts = generate_grid l xs zs (generate_row l zs x ts)"
  by (simp add: generate_grid_def)

lemma generate_row_preserves:
  assumes "\<And>t x z. f (snd (generateChunk t x z l)) = f t"
  shows "f (generate_row l zs x ts) = f ts"
proof (induction zs arbitrary: ts)
  case Nil
  then show ?case by (simp add: generate_row_def)
next
  case (Cons z zs)
  then show ?case unfolding generate_row_Cons by (simp add: assms)
qed

lemma generate_grid_preserves:
  assumes "\<And>t x z. f (snd (generateChunk t x z l)) = f t"
  shows "f (generate_grid l xs zs ts) = f ts"
proof (induction xs arbitrary: ts)
  case Nil
  then show ?case by (simp add: generate_grid_def)
next
  case (Cons x xs)
  then show ?case unfolding generate_grid_Cons by (simp add: generate_row_preserves [OF assms])
qed

lemma generate_row_invariant:
  assumes "\<And>t x z. P t \<Longrightarrow> P (snd (generateChunk t x z l))" and "P ts"
  shows "P (generate_row l zs x ts)"
  using assms(2)
proof (induction zs arbitrary: ts)
  case Nil
  then show ?case by (simp add: generate_row_def)
next
  case (Cons z zs)
  then show ?case unfolding generate_row_Cons by (simp add: assms(1))
qed

lemma generate_grid_invariant:
  assumes "\<And>t x z. P t \<Longrightarrow> P (snd (generateChunk t x z l))" and "P ts"
  shows "P (generate_grid l xs zs ts)"
  using assms(2)
proof (induction xs arbitrary: ts)
  case Nil
  then show ?case by (simp add: generate_grid_def)
next
  case (Cons x xs)
  then show ?case unfolding generate_grid_Cons
    by (simp add: generate_row_invariant [where P = P, OF assms(1)])
qed

lemma generate_row_loaded:
  "set (loadedChunks (generate_row l zs x ts))
     = set (loadedChunks ts) \<union> (\<lambda>z. (real_of_int x, real_of_int z)) ` set zs"
proof (induction zs arbitrary: ts)
  case Nil
  then show ?case by (simp add: generate_row_def)
next
  case (Cons z zs)
  then show ?case unfolding generate_row_Cons by (simp add: generateChunk_loaded)
qed

lemma generate_grid_loaded:
  "set (loadedChunks (generate_grid l xs zs ts))
     = set (loadedChunks ts) \<union> (\<lambda>(x, z). (real_of_int x, real_of_int z)) ` (set xs \<times> set zs)"
proof (induction xs arbitrary: ts)
  case Nil
  then show ?case by (simp add: generate_grid_def)
next
  case (Cons x xs)
  show ?case unfolding generate_grid_Cons Cons generate_row_loaded by auto
qed


text \<open>The system as the constructor leaves it: the configuration of the source, the 25
  chunks around the origin loaded, all at level of detail 0.\<close>

lemma TerrainSystem_new_config:
  "biomeNoise (TerrainSystem_new g) = BiomeNoise_new 12345"
  "renderDistance (TerrainSystem_new g) = 2000"
  "chunkWorldSize (TerrainSystem_new g) = 500"
  "lodLevels (TerrainSystem_new g) = 4"
  "autoLOD (settings (TerrainSystem_new g))"
  unfolding TerrainSystem_new_def generateInitialChunks_def Let_def
  by (simp_all add: generate_grid_preserves generateChunk_frame)

lemma TerrainSystem_new_registry_ok: "registry_ok (TerrainSystem_new g)"
  unfolding TerrainSystem_new_def generateInitialChunks_def Let_def
proof (rule generate_grid_invariant [where P = registry_ok])
  show "registry_ok (snd (generateChunk t x z (Lod 0)))" if "registry_ok t" for t x z
    by (rule generateChunk_registry_ok [OF that])
qed (simp add: registry_ok_def)

lemma TerrainSystem_new_loaded:
  "set (loadedChunks (TerrainSystem_new g))
     = (\<lambda>(x, z). (real_of_int x, real_of_int z)) ` ({-2..2} \<times> {-2..2})"
  unfolding TerrainSystem_new_def generateInitialChunks_def Let_def generate_grid_loaded set_upto
  by simp



subsection \<open>What update does to one key\<close>










subsection \<open>Level of detail\<close>








subsection \<open>The chunk pool\<close>

text \<open>Releasing a chunk and acquiring one again gives the same record back with only
  \<open>vertices\<close>, \<open>indices\<close>, \<open>buffers\<close> and \<open>visible\<close> reset.\<close>

lemma pool_round_trip:
  "getChunkFromPool (returnChunkToPool ts chunk)
     = (chunk\<lparr>vertices := None, indices := None, buffers := None, visible := False\<rparr>, ts)"
  by (simp add: getChunkFromPool_def returnChunkToPool_def Let_def)

lemma unloadChunk_pool:
  "map_of (chunks ts) k = Some chunk \<Longrightarrow>
     chunkPool (unloadChunk ts k)
       = chunkPool ts @ [chunk\<lparr>vertices := None, indices := None, buffers := None,
                               visible := False\<rparr>]"
  by (simp add: unloadChunk_def returnChunkToPool_def Let_def)

text \<open>
  Claim C5 fails on the code. Unload the chunk of key \<open>(0, 0)\<close> that the constructor
  generated and acquire a chunk from the pool: it is the record just released, with
  \<open>vertices\<close>, \<open>indices\<close>, \<open>buffers\<close> and \<open>visible\<close> reset, but it still carries the bounding
  box (and the transform, key and level of detail) of the chunk of key \<open>(0, 0)\<close>, where a
  chunk made afresh has none.
\<close>

theorem pool_reuse_keeps_bounds:
  "map_of (chunks (TerrainSystem_new new_context)) (0, 0) \<noteq> None
   \<and> bounds (fst (getChunkFromPool (unloadChunk (TerrainSystem_new new_context) (0, 0))))
       = bounds (the (map_of (chunks (TerrainSystem_new new_context)) (0, 0)))
   \<and> bounds (fst (getChunkFromPool (unloadChunk (TerrainSystem_new new_context) (0, 0)))) \<noteq> None
   \<and> transform (fst (getChunkFromPool (unloadChunk (TerrainSystem_new new_context) (0, 0))))
       = transform (the (map_of (chunks (TerrainSystem_new new_context)) (0, 0)))
   \<and> chunk_key (fst (getChunkFromPool (unloadChunk (TerrainSystem_new new_context) (0, 0))))
       = chunk_key (the (map_of (chunks (TerrainSystem_new new_context)) (0, 0)))
   \<and> vertices (fst (getChunkFromPool (unloadChunk (TerrainSystem_new new_context) (0, 0)))) = None
   \<and> indices (fst (getChunkFromPool (unloadChunk (TerrainSystem_new new_context) (0, 0)))) = None
   \<and> buffers (fst (getChunkFromPool (unloadChunk (TerrainSystem_new new_context) (0, 0)))) = None
   \<and> \<not> visible (fst (getChunkFromPool (unloadChunk (TerrainSystem_new new_context) (0, 0))))
   \<and> bounds fresh_chunk = None"
proof -
  let ?T = "TerrainSystem_new new_context"
  have ok: "registry_ok ?T" by (rule TerrainSystem_new_registry_ok)
  have "(real_of_int 0, real_of_int 0) \<in> set (loadedChunks ?T)"
    unfolding TerrainSystem_new_loaded by (intro image_eqI [where x = "(0, 0)"]) simp_all
  then have "(0, 0) \<in> set (loadedChunks ?T)" by simp
  then obtain c where c: "map_of (chunks ?T) (0, 0) = Some c"
    using ok unfolding registry_ok_iff by blast
  then have "((0, 0), c) \<in> set (chunks ?T)" by (rule map_of_SomeD)
  then have b: "bounds c \<noteq> None" using ok unfolding registry_ok_iff by auto
  have "fst (getChunkFromPool (unloadChunk ?T (0, 0)))
          = c\<lparr>vertices := None, indices := None, buffers := None, visible := False\<rparr>"
    by (simp add: getChunkFromPool_def unloadChunk_pool [OF c])
  then show ?thesis using b by (simp add: c fresh_chunk_def)
qed

subsection \<open>Determinism of the terrain queries\<close>

lemma unloadAll_preserves:
  assumes "\<And>t k. f (unloadChunk t k) = f t"
  shows "f (fold (\<lambda>key ts1. unloadChunk ts1 key) ks ts) = f ts"
  by (induction ks arbitrary: ts) (simp_all add: assms)

lemma unloadAll_registry_ok:
  "registry_ok ts \<Longrightarrow> registry_ok (fold (\<lambda>key ts1. unloadChunk ts1 key) ks ts)"
  by (induction ks arbitrary: ts) (simp_all add: unloadChunk_registry_ok)

lemma generateInitialChunks_biomeNoise: "biomeNoise (generateInitialChunks ts) = biomeNoise ts"
  unfolding generateInitialChunks_def Let_def
  by (rule generate_grid_preserves) (rule generateChunk_frame)

lemma generateInitialChunks_registry_ok:
  assumes "registry_ok ts"
  shows "registry_ok (generateInitialChunks ts)"
  unfolding generateInitialChunks_def Let_def
proof (rule generate_grid_invariant [where P = registry_ok])
  show "registry_ok (snd (generateChunk t x z (Lod 0)))" if "registry_ok t" for t x z
    by (rule generateChunk_registry_ok [OF that])
qed (rule assms)

lemma regenerateAllChunks_biomeNoise: "biomeNoise (regenerateAllChunks ts) = biomeNoise ts"
  unfolding regenerateAllChunks_def unloadAll_def generateInitialChunks_biomeNoise
  by (rule unloadAll_preserves) (rule unloadChunk_frame)

lemma regenerateAllChunks_registry_ok:
  "registry_ok ts \<Longrightarrow> registry_ok (regenerateAllChunks ts)"
  unfolding regenerateAllChunks_def unloadAll_def
  by (intro generateInitialChunks_registry_ok unloadAll_registry_ok)

lemma updateSettings_biomeNoise: "biomeNoise (updateSettings ts u) = biomeNoise ts"
  by (simp add: updateSettings_def Let_def regenerateAllChunks_biomeNoise split: option.splits)

lemma updateSettings_registry_ok:
  assumes "registry_ok ts"
  shows "registry_ok (updateSettings ts u)"
proof -
  have a: "registry_ok (ts\<lparr>settings := s\<rparr>)" for s
    using assms by (simp add: registry_ok_def)
  have b: "registry_ok (ts\<lparr>settings := s, chunkSize := n\<rparr>)" for s n
    using assms by (simp add: registry_ok_def)
  show ?thesis
    by (simp add: updateSettings_def Let_def a regenerateAllChunks_registry_ok [OF b]
        split: option.splits)
qed

lemma destroy_biomeNoise: "biomeNoise (destroy ts) = biomeNoise ts"
proof -
  have "biomeNoise (unloadAll ts) = biomeNoise ts"
    unfolding unloadAll_def by (rule unloadAll_preserves) (rule unloadChunk_frame)
  then show ?thesis by (simp add: destroy_def)
qed

text \<open>No call replaces or changes the noise objects.\<close>

lemma call_biomeNoise:
  assumes "call ts c = Inr ts'"
  shows "biomeNoise ts' = biomeNoise ts"
proof (cases c)
  case (Update cam planes)
  then show ?thesis using assms update_props(1) by simp
next
  case (GenerateChunk x z l)
  then show ?thesis using assms generateChunk_frame(1) by auto
next
  case (UnloadChunk k)
  then show ?thesis using assms by (auto simp: unloadChunk_frame(1))
next
  case (UpdateSettings u)
  then show ?thesis using assms updateSettings_biomeNoise by auto
next
  case RegenerateAllChunks
  then show ?thesis using assms regenerateAllChunks_biomeNoise by auto
next
  case (SetRenderDistance d)
  then show ?thesis using assms by auto
next
  case Destroy
  then show ?thesis using assms destroy_biomeNoise by auto
qed

lemma run_biomeNoise:
  "run ts cs = Inr ts' \<Longrightarrow> biomeNoise ts' = biomeNoise ts"
proof (induction cs arbitrary: ts)
  case Nil
  then show ?case by simp
next
  case (Cons c cs)
  then obtain t where t: "call ts c = Inr t" and r: "run t cs = Inr ts'"
    by (auto split: sum.splits)
  from Cons.IH [OF r] call_biomeNoise [OF t] show ?case by simp
qed

text \<open>Every call on a registry in order returns normally and leaves it in order, so a
  run that starts at the constructor never throws.\<close>

lemma call_ok:
  assumes "registry_ok ts"
  shows "\<exists>ts'. call ts c = Inr ts' \<and> registry_ok ts'"
proof (cases c)
  case (Update cam planes)
  obtain ts' where u: "update ts cam planes = Inr ts'" using update_ok [OF assms] by blast
  then show ?thesis using Update update_props(7) [OF u assms] by simp
next
  case (GenerateChunk x z l)
  then show ?thesis using generateChunk_registry_ok [OF assms] by simp
next
  case (UnloadChunk k)
  then show ?thesis using unloadChunk_registry_ok [OF assms] by simp
next
  case (UpdateSettings u)
  then show ?thesis using updateSettings_registry_ok [OF assms] by simp
next
  case RegenerateAllChunks
  then show ?thesis using regenerateAllChunks_registry_ok [OF assms] by simp
next
  case (SetRenderDistance d)
  then show ?thesis using assms by (simp add: registry_ok_def)
next
  case Destroy
  then show ?thesis by (simp add: destroy_def registry_ok_def)
qed

lemma run_ok:
  "registry_ok ts \<Longrightarrow> \<exists>ts'. run ts cs = Inr ts'"
proof (induction cs arbitrary: ts)
  case Nil
  then show ?case by simp
next
  case (Cons c cs)
  from call_ok [OF Cons.prems, of c] obtain t where "call ts c = Inr t" "registry_ok t" by blast
  with Cons.IH [of t] show ?case by simp
qed

text \<open>
  Claim C1. Take two terrain systems, each made by the constructor (which seeds the noise
  with 12345) on any WebGL context, and let each go through any sequence of calls. At every
  \<open>(x, z)\<close> the two return the same height and the same biome: the results depend on the
  coordinates alone, since no call changes the noise objects built at construction.
  (Numbers are reals here, so equality of results is equality of reals.)
\<close>

theorem terrain_queries_deterministic:
  assumes "run (TerrainSystem_new g1) calls1 = Inr ts1"
    and "run (TerrainSystem_new g2) calls2 = Inr ts2"
  shows "getHeightAt ts1 x z = getHeightAt ts2 x z
       \<and> getBiomeAt ts1 x z = getBiomeAt ts2 x z
       \<and> getHeightAt ts1 x z
           = getBlendedHeight (BiomeNoise_new 12345) x z (getBiome (BiomeNoise_new 12345) x z)
       \<and> getBiomeAt ts1 x z = getBiome (BiomeNoise_new 12345) x z"
  using run_biomeNoise [OF assms(1)] run_biomeNoise [OF assms(2)]
  by (simp add: getHeightAt_def getBiomeAt_def TerrainSystem_new_config)

theorem terrain_queries_deterministic_witness:
  "\<exists>ts1 ts2.
     run (TerrainSystem_new new_context)
       [Update (Vec3 1200 0 (- 700)) None, SetRenderDistance 1000, Update (Vec3 1300 0 (- 700)) None]
       = Inr ts1
     \<and> run (TerrainSystem_new (new_context\<lparr>next_buffer := 7\<rparr>)) [] = Inr ts2
     \<and> getHeightAt ts1 10 20 = getHeightAt ts2 10 20
     \<and> getBiomeAt ts1 10 20 = getBiomeAt ts2 10 20"
proof -
  obtain ts1 where a: "run (TerrainSystem_new new_context)
       [Update (Vec3 1200 0 (- 700)) None, SetRenderDistance 1000, Update (Vec3 1300 0 (- 700)) None]
       = Inr ts1"
    using run_ok [OF TerrainSystem_new_registry_ok] by blast
  have b: "run (TerrainSystem_new (new_context\<lparr>next_buffer := 7\<rparr>)) []
             = Inr (TerrainSystem_new (new_context\<lparr>next_buffer := 7\<rparr>))"
    by simp
  from terrain_queries_deterministic [OF a b, of 10 20] a b show ?thesis by blast
qed

end
